theory Spec2Isabelle
  imports Complex_Main
begin

section \<open>Conventions\<close>

text \<open>
  The development embeds the numeric core of \<^verbatim>\<open>mmdet/models/anchor_heads/fouriernet_head.py\<close>.
  Tensors of floats are lists of \<open>real\<close>: arithmetic is exact, rounding is not modelled.
  Integer tensors are lists of \<open>int\<close>.  Every Python exception is a value of \<open>error\<close>,
  and a function that can raise returns \<open>error + 'a\<close> with \<open>Inl\<close> for the exception.
\<close>

datatype error =
    ZeroDivisionError
  | ValueError
  | IndexError
  | RuntimeError
  | TypeError
  | NameError
  | AttributeError
  | AssertionError
  | UnboundLocalError

text \<open>\<^verbatim>\<open>INF = 1e8\<close>\<close>

definition INF_val :: real where
  "INF_val = 100000000"

section \<open>PointGrid: \<^verbatim>\<open>get_points_single\<close>\<close>

text \<open>
  \<^verbatim>\<open>torch.arange(start, end, step)\<close> on integers: a zero step and bounds inconsistent with
  the sign of the step raise; otherwise there are \<open>ceil((end - start) / step)\<close> entries.
\<close>

definition arange :: "int \<Rightarrow> int \<Rightarrow> int \<Rightarrow> error + int list" where
  "arange start stop step =
     (if step = 0 then Inl RuntimeError
      else if \<not> ((0 < step \<and> start \<le> stop) \<or> (step < 0 \<and> stop \<le> start)) then Inl RuntimeError
      else Inr (map (\<lambda>k. start + int k * step) [0..<nat (- ((start - stop) div step))]))"

text \<open>
  \<^verbatim>\<open>y, x = torch.meshgrid(y_range, x_range)\<close> (matrix indexing): \<open>y\<close> repeats each entry of
  \<open>y_range\<close> along a row, \<open>x\<close> repeats \<open>x_range\<close> in every row.
\<close>

definition meshgrid :: "'a list \<Rightarrow> 'b list \<Rightarrow> 'a list list \<times> 'b list list" where
  "meshgrid ys xs = (map (\<lambda>y. map (\<lambda>_. y) xs) ys, map (\<lambda>_. xs) ys)"

text \<open>
  \<^verbatim>\<open>
  def get_points_single(featmap_size, stride, dtype, device):
      h, w = featmap_size
      x_range = torch.arange(0, w * stride, stride, dtype=dtype, device=device)
      y_range = torch.arange(0, h * stride, stride, dtype=dtype, device=device)
      y, x = torch.meshgrid(y_range, x_range)
      points = torch.stack((x.reshape(-1), y.reshape(-1)), dim=-1) + stride // 2
      return points
  \<close>
  \<open>reshape(-1)\<close> is \<open>concat\<close> (row-major), \<open>stack(.., dim=-1)\<close> is \<open>zip\<close>, and Python's
  floor division \<open>//\<close> is \<open>div\<close> on \<open>int\<close>.
\<close>

definition get_points_single :: "nat \<times> nat \<Rightarrow> int \<Rightarrow> error + (int \<times> int) list" where
  "get_points_single featmap_size stride =
     (case featmap_size of (h, w) \<Rightarrow>
        (case arange 0 (int w * stride) stride of
           Inl e \<Rightarrow> Inl e
         | Inr x_range \<Rightarrow>
            (case arange 0 (int h * stride) stride of
               Inl e \<Rightarrow> Inl e
             | Inr y_range \<Rightarrow>
                (case meshgrid y_range x_range of (y, x) \<Rightarrow>
                   Inr (map (\<lambda>(px, py). (px + stride div 2, py + stride div 2))
                          (zip (concat x) (concat y)))))))"

section \<open>CenternessScorer: \<^verbatim>\<open>polar_centerness_target\<close>\<close>

text \<open>
  \<^verbatim>\<open>
  def polar_centerness_target(pos_mask_targets, max_centerness=None):
      centerness_targets = torch.sqrt(pos_mask_targets.min() / pos_mask_targets.max())
      if max_centerness:
          centerness_targets /= max_centerness
      return centerness_targets.clamp_max(1.0)
  \<close>
  \<open>min()\<close> of an empty tensor raises.  Tensor division by zero and the square root of a
  negative number do not raise but give NaN, which \<open>clamp_max\<close> keeps: the result \<open>None\<close>
  stands for NaN.  \<open>if max_centerness:\<close> is Python truthiness: \<open>None\<close> and \<open>0\<close> are false.
\<close>

definition truthy :: "real option \<Rightarrow> bool" where
  "truthy m = (case m of None \<Rightarrow> False | Some v \<Rightarrow> v \<noteq> 0)"

definition polar_centerness_target :: "real list \<Rightarrow> real option \<Rightarrow> error + real option" where
  "polar_centerness_target pos_mask_targets max_centerness =
     (if pos_mask_targets = [] then Inl RuntimeError
      else
        let lo = Min (set pos_mask_targets); hi = Max (set pos_mask_targets) in
        if hi = 0 \<or> lo / hi < 0 then Inr None
        else
          let centerness_targets = sqrt (lo / hi);
              centerness_targets =
                (if truthy max_centerness then centerness_targets / the max_centerness
                 else centerness_targets)
          in Inr (Some (min centerness_targets 1)))"

section \<open>PolarSampler: \<^verbatim>\<open>get_polar_coordinates\<close>\<close>

text \<open>
  \<^verbatim>\<open>torch.atan2(a, b)\<close> is the angle of the vector \<open>(b, a)\<close> in \<open>(-pi, pi]\<close>, with
  \<open>atan2(0, 0) = 0\<close>.  Signed zeros are not modelled.
\<close>

definition atan2 :: "real \<Rightarrow> real \<Rightarrow> real" where
  "atan2 a b =
     (if 0 < b then arctan (a / b)
      else if b < 0 then (if 0 \<le> a then arctan (a / b) + pi else arctan (a / b) - pi)
      else if 0 < a then pi / 2
      else if a < 0 then - (pi / 2)
      else 0)"

text \<open>\<^verbatim>\<open>.int()\<close> truncates towards zero.\<close>

definition trunc_int :: "real \<Rightarrow> int" where
  "trunc_int r = (if 0 \<le> r then \<lfloor>r\<rfloor> else \<lceil>r\<rceil>)"

text \<open>
  \<^verbatim>\<open>
  x = ct[:, 0] - c_x
  y = ct[:, 1] - c_y
  angle = torch.atan2(x, y) * 180 / np.pi
  angle[angle < 0] += 360
  angle = angle.int()
  dist = torch.sqrt(x ** 2 + y ** 2)
  \<close>
  These are elementwise; \<open>point_angle\<close> and \<open>point_dist\<close> are the entries for one contour point.
\<close>

definition point_angle :: "real \<Rightarrow> real \<Rightarrow> real \<times> real \<Rightarrow> int" where
  "point_angle c_x c_y p =
     (let x = fst p - c_x; y = snd p - c_y;
          angle = atan2 x y * 180 / pi;
          angle = (if angle < 0 then angle + 360 else angle)
      in trunc_int angle)"

definition point_dist :: "real \<Rightarrow> real \<Rightarrow> real \<times> real \<Rightarrow> real" where
  "point_dist c_x c_y p =
     (let x = fst p - c_x; y = snd p - c_y in sqrt (x\<^sup>2 + y\<^sup>2))"

text \<open>\<^verbatim>\<open>range(start, stop, step)\<close>: a zero step raises \<^verbatim>\<open>ValueError\<close>.\<close>

definition py_range :: "int \<Rightarrow> int \<Rightarrow> int \<Rightarrow> error + int list" where
  "py_range start stop step =
     (if step = 0 then Inl ValueError
      else if 0 < step then
        Inr (map (\<lambda>k. start + int k * step) [0..<nat ((stop - start + step - 1) div step)])
      else
        Inr (map (\<lambda>k. start + int k * step) [0..<nat ((start - stop - step - 1) div (- step))]))"

text \<open>\<^verbatim>\<open>i in angle\<close> on a tensor is \<open>(angle == i).any()\<close>; \<^verbatim>\<open>dist[angle == i].max()\<close>.\<close>

definition masked_max :: "int list \<Rightarrow> real list \<Rightarrow> int \<Rightarrow> real" where
  "masked_max angle dists i = Max (set (map snd (filter (\<lambda>(a, d). a = i) (zip angle dists))))"

text \<open>
  The body of the first loop, for one bin angle \<open>i\<close>: the value stored under key \<open>i\<close> of
  \<^verbatim>\<open>new_coordinate\<close>, or \<open>None\<close> when no branch of the \<^verbatim>\<open>if\<close>/\<^verbatim>\<open>elif\<close> chain fires.
\<close>

definition pick_bin :: "int list \<Rightarrow> real list \<Rightarrow> int \<Rightarrow> real option" where
  "pick_bin angle dists i =
     (if i \<in> set angle then Some (masked_max angle dists i)
      else if i + 1 \<in> set angle then Some (masked_max angle dists (i + 1))
      else if i - 1 \<in> set angle then Some (masked_max angle dists (i - 1))
      else if i + 2 \<in> set angle then Some (masked_max angle dists (i + 2))
      else if i - 2 \<in> set angle then Some (masked_max angle dists (i - 2))
      else if i + 3 \<in> set angle then Some (masked_max angle dists (i + 3))
      else if i - 3 \<in> set angle then Some (masked_max angle dists (i - 3))
      else None)"

fun first_loop :: "int list \<Rightarrow> real list \<Rightarrow> int list \<Rightarrow> (int \<rightharpoonup> real) \<Rightarrow> (int \<rightharpoonup> real)" where
  "first_loop angle dists [] new_coordinate = new_coordinate"
| "first_loop angle dists (i # bins) new_coordinate =
     first_loop angle dists bins
       (case pick_bin angle dists i of
          Some d \<Rightarrow> new_coordinate(i \<mapsto> d)
        | None \<Rightarrow> new_coordinate)"

text \<open>The value \<^verbatim>\<open>1e-6\<close> written into a bin that found no contour point.\<close>

definition eps :: real where
  "eps = 1 / 1000000"

text \<open>
  The second loop writes \<^verbatim>\<open>distances[a // interval]\<close>; the tensor has \<open>n\<close> entries and an
  index beyond it raises \<^verbatim>\<open>IndexError\<close>.
\<close>

fun second_loop ::
  "int \<Rightarrow> int list \<Rightarrow> real list \<times> (int \<rightharpoonup> real) \<Rightarrow> error + real list \<times> (int \<rightharpoonup> real)" where
  "second_loop interval [] st = Inr st"
| "second_loop interval (a # bins) (distances, new_coordinate) =
     (if \<not> (0 \<le> a div interval \<and> nat (a div interval) < length distances) then Inl IndexError
      else
        (case new_coordinate a of
           Some d \<Rightarrow>
             second_loop interval bins (distances[nat (a div interval) := d], new_coordinate)
         | None \<Rightarrow>
             second_loop interval bins
               (distances[nat (a div interval) := eps], new_coordinate(a \<mapsto> eps))))"

text \<open>
  \<^verbatim>\<open>
  def get_polar_coordinates(c_x, c_y, pos_mask_contour, n=72):
      ...
      angle, idx = torch.sort(angle)
      dist = dist[idx]
      interval = 360 // n
      new_coordinate = {}
      for i in range(0, 360, interval): ...
      distances = torch.zeros(n)
      for a in range(0, 360, interval): ...
      return distances, new_coordinate
  \<close>
  A contour of either layout (\<open>[k, 2]\<close> or \<open>[k, 1, 2]\<close>) is a list of points.
\<close>

definition get_polar_coordinates ::
  "real \<Rightarrow> real \<Rightarrow> (real \<times> real) list \<Rightarrow> nat \<Rightarrow> error + real list \<times> (int \<rightharpoonup> real)" where
  "get_polar_coordinates c_x c_y pos_mask_contour n =
     (let ct = pos_mask_contour;
          sorted_pairs = sort_key fst (zip (map (point_angle c_x c_y) ct) (map (point_dist c_x c_y) ct));
          angle = map fst sorted_pairs;
          dists = map snd sorted_pairs
      in if n = 0 then Inl ZeroDivisionError
         else
           let interval = 360 div int n in
           (case py_range 0 360 interval of
              Inl e \<Rightarrow> Inl e
            | Inr bins \<Rightarrow>
                let new_coordinate = first_loop angle dists bins Map.empty
                in second_loop interval bins (replicate n 0, new_coordinate)))"

text \<open>
  The rule of the specification for the bin at angle \<open>i\<close>, in its own words: the first angle
  of the priority order exact, +1, -1, +2, -2, +3, -3 that some contour point has decides,
  and the bin is the largest distance among the contour points of that angle; with no such
  angle the bin is the epsilon.
\<close>

definition priority_offsets :: "int list" where
  "priority_offsets = [0, 1, - 1, 2, - 2, 3, - 3]"

definition spec_bin_value :: "real \<Rightarrow> real \<Rightarrow> (real \<times> real) list \<Rightarrow> int \<Rightarrow> real" where
  "spec_bin_value c_x c_y ct i =
     (case find (\<lambda>a. \<exists>p\<in>set ct. point_angle c_x c_y p = a) (map (\<lambda>off. i + off) priority_offsets) of
        None \<Rightarrow> eps
      | Some a \<Rightarrow> Max (set (map (point_dist c_x c_y) (filter (\<lambda>p. point_angle c_x c_y p = a) ct))))"

section \<open>FourierCodec\<close>

text \<open>
  \<^verbatim>\<open>torch.rfft(x, 1, normalized=True, onesided=False)\<close>: the discrete Fourier transform of a
  real signal of length \<open>N\<close>, all \<open>N\<close> bins, scaled by \<open>1 / sqrt N\<close>.  An empty signal raises.
\<close>

definition rfft :: "real list \<Rightarrow> error + complex list" where
  "rfft x =
     (let N = length x in
      if N = 0 then Inl RuntimeError
      else Inr (map (\<lambda>k. (\<Sum>n<N. of_real (x ! n) * cis (- (2 * pi * real k * real n / real N)))
                          / of_real (sqrt (real N))) [0..<N]))"

text \<open>
  \<^verbatim>\<open>torch.irfft(X, 1, normalized=True, onesided=False)\<close> on \<open>N\<close> complex bins: the
  complex-to-real inverse transform of length \<open>N\<close>.  It reads the bins \<open>0 .. N div 2\<close> only and
  takes the others to be their conjugate mirror images, scaling by \<open>1 / sqrt N\<close>.
\<close>

definition hermitian_bin :: "complex list \<Rightarrow> nat \<Rightarrow> complex" where
  "hermitian_bin X k = (if k \<le> length X div 2 then X ! k else cnj (X ! (length X - k)))"

definition irfft :: "complex list \<Rightarrow> error + real list" where
  "irfft X =
     (let N = length X in
      if N = 0 then Inl RuntimeError
      else Inr (map (\<lambda>n. Re ((\<Sum>k<N. hermitian_bin X k * cis (2 * pi * real k * real n / real N))
                              / of_real (sqrt (real N)))) [0..<N]))"

text \<open>
  The forward step of \<^verbatim>\<open>loss\<close>:
  \<^verbatim>\<open>
  pos_mask_targets = torch.rfft(pos_mask_targets, 1, True, False)
  pos_mask_targets = pos_mask_targets[..., :self.num_coe, :]
  \<close>
  for one row, and the inverse step of \<^verbatim>\<open>distance2mask\<close> before its exponential:
  \<^verbatim>\<open>
  torch.irfft(torch.cat([distances, torch.zeros(distances.shape[0],
      self.contour_points - self.num_coe, 2)], 1), 1, True, False)
  \<close>
  \<^verbatim>\<open>torch.zeros\<close> with a negative size raises.
\<close>

definition fourier_forward :: "nat \<Rightarrow> real list \<Rightarrow> error + complex list" where
  "fourier_forward num_coe x =
     (case rfft x of Inl e \<Rightarrow> Inl e | Inr X \<Rightarrow> Inr (take num_coe X))"

definition fourier_inverse :: "nat \<Rightarrow> nat \<Rightarrow> complex list \<Rightarrow> error + real list" where
  "fourier_inverse contour_points num_coe coe =
     (if contour_points < num_coe then Inl RuntimeError
      else irfft (coe @ replicate (contour_points - num_coe) 0))"

section \<open>TargetAssigner: \<^verbatim>\<open>get_mask_sample_region\<close> and \<^verbatim>\<open>polar_target_single\<close>\<close>

text \<open>
  A box is \<open>(x0, y0, x1, y1)\<close>; the four distances of a point to the box edges use the same
  type, as \<open>(left, top, right, bottom)\<close>.  A matrix is the list of its rows (one row per
  point, one column per ground-truth instance).
\<close>

type_synonym bbox = "real \<times> real \<times> real \<times> real"

definition min4 :: "bbox \<Rightarrow> real" where
  "min4 b = (case b of (l, t, r, bt) \<Rightarrow> min (min l t) (min r bt))"

definition max4 :: "bbox \<Rightarrow> real" where
  "max4 b = (case b of (l, t, r, bt) \<Rightarrow> max (max l t) (max r bt))"

text \<open>
  \<^verbatim>\<open>
  left = xs - gt_bboxes[..., 0]
  right = gt_bboxes[..., 2] - xs
  top = ys - gt_bboxes[..., 1]
  bottom = gt_bboxes[..., 3] - ys
  bbox_targets = torch.stack((left, top, right, bottom), -1)
  \<close>
\<close>

definition edge_distances :: "real \<times> real \<Rightarrow> bbox \<Rightarrow> bbox" where
  "edge_distances p b =
     (case p of (xs, ys) \<Rightarrow> case b of (x0, y0, x1, y1) \<Rightarrow> (xs - x0, ys - y0, x1 - xs, y1 - ys))"

text \<open>
  \<^verbatim>\<open>areas = (gt_bboxes[:, 2] - gt_bboxes[:, 0] + 1) * (gt_bboxes[:, 3] - gt_bboxes[:, 1] + 1)\<close>
\<close>

definition bbox_area :: "bbox \<Rightarrow> real" where
  "bbox_area b = (case b of (x0, y0, x1, y1) \<Rightarrow> (x1 - x0 + 1) * (y1 - y0 + 1))"

text \<open>
  \<^verbatim>\<open>t[None].expand(n, ...)\<close> along the leading dimension of \<open>t\<close>: a tensor of \<open>n\<close> rows is
  kept, a tensor of one row is repeated, any other size raises.
\<close>

definition expand_rows :: "nat \<Rightarrow> 'a list \<Rightarrow> error + 'a list" where
  "expand_rows n xs =
     (if length xs = n then Inr xs
      else if length xs = 1 then Inr (replicate n (hd xs))
      else Inl RuntimeError)"

text \<open>
  The loop of \<^verbatim>\<open>get_mask_sample_region\<close> over the pyramid levels:
  \<^verbatim>\<open>
  beg = 0
  for level, n_p in enumerate(num_points_per):
      end = beg + n_p
      stride = strides[level] * radius
      xmin = center_x[beg:end] - stride
      ymin = center_y[beg:end] - stride
      xmax = center_x[beg:end] + stride
      ymax = center_y[beg:end] + stride
      center_gt[beg:end, :, 0] = torch.where(xmin > gt_bb[beg:end, :, 0], xmin, gt_bb[beg:end, :, 0])
      center_gt[beg:end, :, 1] = torch.where(ymin > gt_bb[beg:end, :, 1], ymin, gt_bb[beg:end, :, 1])
      center_gt[beg:end, :, 2] = torch.where(xmax > gt_bb[beg:end, :, 2], gt_bb[beg:end, :, 2], xmax)
      center_gt[beg:end, :, 3] = torch.where(ymax > gt_bb[beg:end, :, 3], gt_bb[beg:end, :, 3], ymax)
      beg = end
  \<close>
  A slice \<open>beg:end\<close> is cut at the number of rows.
\<close>

definition shrunk_box :: "real \<Rightarrow> real \<Rightarrow> real \<Rightarrow> bbox \<Rightarrow> bbox" where
  "shrunk_box stride cx cy b =
     (case b of (x0, y0, x1, y1) \<Rightarrow>
        let xmin = cx - stride; ymin = cy - stride; xmax = cx + stride; ymax = cy + stride
        in (if xmin > x0 then xmin else x0,
            if ymin > y0 then ymin else y0,
            if xmax > x1 then x1 else xmax,
            if ymax > y1 then y1 else ymax))"

fun region_loop ::
  "real list \<Rightarrow> real \<Rightarrow> bbox list list \<Rightarrow> real list list \<Rightarrow> real list list \<Rightarrow>
     nat list \<Rightarrow> nat \<Rightarrow> nat \<Rightarrow> bbox list list \<Rightarrow> error + bbox list list" where
  "region_loop strides radius gt_bb center_x center_y [] level beg center_gt = Inr center_gt"
| "region_loop strides radius gt_bb center_x center_y (n_p # rest) level beg center_gt =
     (if length strides \<le> level then Inl IndexError
      else
        let end_p = beg + n_p;
            stride = strides ! level * radius;
            center_gt' =
              map (\<lambda>r. if beg \<le> r \<and> r < end_p
                        then map (\<lambda>g. shrunk_box stride (center_x ! r ! g) (center_y ! r ! g) (gt_bb ! r ! g))
                               [0..<length (center_gt ! r)]
                        else center_gt ! r)
                [0..<length center_gt]
        in region_loop strides radius gt_bb center_x center_y rest (Suc level) end_p center_gt')"

text \<open>
  \<^verbatim>\<open>
  def get_mask_sample_region(gt_bb, mask_center, strides, num_points_per, gt_xs, gt_ys, radius=1.0):
      center_y = mask_center[..., 0]
      center_x = mask_center[..., 1]
      center_gt = gt_bb.new_zeros(gt_bb.shape)
      # no gt
      if center_x[..., 0].sum() == 0:
          return gt_xs.new_zeros(gt_xs.shape, dtype=torch.uint8)
      ... the loop ...
      left = gt_xs - center_gt[..., 0]
      right = center_gt[..., 2] - gt_xs
      top = gt_ys - center_gt[..., 1]
      bottom = center_gt[..., 3] - gt_ys
      center_bbox = torch.stack((left, top, right, bottom), -1)
      inside_gt_bbox_mask = center_bbox.min(-1)[0] > 0
      return inside_gt_bbox_mask
  \<close>
\<close>

definition get_mask_sample_region ::
  "bbox list list \<Rightarrow> (real \<times> real) list list \<Rightarrow> real list \<Rightarrow> nat list \<Rightarrow>
     real list list \<Rightarrow> real list list \<Rightarrow> real \<Rightarrow> error + bool list list" where
  "get_mask_sample_region gt_bb mask_center strides num_points_per gt_xs gt_ys radius =
     (let center_y = map (map fst) mask_center;
          center_x = map (map snd) mask_center;
          center_gt = map (map (\<lambda>_. (0, 0, 0, 0))) gt_bb
      in if \<exists>row\<in>set center_x. row = [] then Inl IndexError
         else if sum_list (map hd center_x) = 0 then Inr (map (map (\<lambda>_. False)) gt_xs)
         else
           (case region_loop strides radius gt_bb center_x center_y num_points_per 0 0 center_gt of
              Inl e \<Rightarrow> Inl e
            | Inr center_gt \<Rightarrow>
                Inr (map (\<lambda>r. map (\<lambda>g. 0 < min4 (edge_distances (gt_xs ! r ! g, gt_ys ! r ! g) (center_gt ! r ! g)))
                                 [0..<length (gt_xs ! r)])
                       [0..<length gt_xs])))"

text \<open>The attributes of the head that the modelled methods read.\<close>

record head_cfg =
  use_fourier :: bool
  contour_points :: nat
  num_coe :: nat
  visulize_coe :: nat
  strides :: "real list"
  num_points_per_level :: "nat list"
  center_sample :: bool
  use_mask_center :: bool
  radius :: real
  normalized_centerness :: bool

text \<open>\<^verbatim>\<open>self.interval = 360 // self.contour_points\<close>\<close>

definition interval :: "head_cfg \<Rightarrow> int" where
  "interval cfg = 360 div int (contour_points cfg)"

text \<open>
  What \<^verbatim>\<open>polar_target_single\<close> returns: the early return for an image without ground truth
  is a pair, the regular return a 4-tuple \<open>(labels, bbox_targets, mask_targets,
  centerness_target)\<close>.  A centerness entry \<open>None\<close> is NaN.
\<close>

datatype targets =
    Targets2 "int list" "bbox list"
  | Targets4 "int list" "bbox list" "real list list" "real option list"

text \<open>
  \<^verbatim>\<open>min_area, min_area_inds = areas.min(dim=1)\<close> for one row: the minimum and the index of
  its first occurrence.
\<close>

fun min_with_index :: "real list \<Rightarrow> real \<times> nat" where
  "min_with_index [] = (0, 0)"
| "min_with_index [x] = (x, 0)"
| "min_with_index (x # xs) =
     (case min_with_index xs of (m, i) \<Rightarrow> if x \<le> m then (x, 0) else (m, Suc i))"

text \<open>
  The inclusion test of \<^verbatim>\<open>polar_target_single\<close>:
  \<^verbatim>\<open>
  if self.center_sample:
      if self.use_mask_center:
          inside_gt_bbox_mask = get_mask_sample_region(gt_bboxes, mask_centers, self.strides,
              self.num_points_per_level, xs, ys, radius=self.radius)
      else:
          inside_gt_bbox_mask = self.get_sample_region(...)
  else:
      inside_gt_bbox_mask = bbox_targets.min(-1)[0] > 0
  \<close>
  The class defines no method \<^verbatim>\<open>get_sample_region\<close>, so that branch raises
  \<^verbatim>\<open>AttributeError\<close>.
\<close>

definition inside_gt_bbox_mask ::
  "head_cfg \<Rightarrow> bbox list \<Rightarrow> (real \<times> real) list \<Rightarrow> (real \<times> real) list \<Rightarrow> error + bool list list" where
  "inside_gt_bbox_mask cfg gt_bboxes mask_centers points =
     (if center_sample cfg then
        if use_mask_center cfg then
          get_mask_sample_region
            (map (\<lambda>_. gt_bboxes) points) (map (\<lambda>_. mask_centers) points)
            (strides cfg) (num_points_per_level cfg)
            (map (\<lambda>p. map (\<lambda>_. fst p) gt_bboxes) points)
            (map (\<lambda>p. map (\<lambda>_. snd p) gt_bboxes) points)
            (radius cfg)
        else Inl AttributeError
      else Inr (map (\<lambda>p. map (\<lambda>b. 0 < min4 (edge_distances p b)) gt_bboxes) points))"

text \<open>
  \<^verbatim>\<open>
  max_regress_distance = bbox_targets.max(-1)[0]
  inside_regress_range = (max_regress_distance >= regress_ranges[..., 0]) & \
                         (max_regress_distance <= regress_ranges[..., 1])
  \<close>
\<close>

definition inside_regress_range :: "real \<times> real \<Rightarrow> real \<times> real \<Rightarrow> bbox \<Rightarrow> bool" where
  "inside_regress_range p rr b =
     (let max_regress_distance = max4 (edge_distances p b)
      in fst rr \<le> max_regress_distance \<and> max_regress_distance \<le> snd rr)"

text \<open>
  \<^verbatim>\<open>
  areas[inside_gt_bbox_mask == 0] = INF
  areas[inside_regress_range == 0] = INF
  \<close>
  for the row of one point.
\<close>

definition masked_areas :: "real \<times> real \<Rightarrow> real \<times> real \<Rightarrow> bbox list \<Rightarrow> bool list \<Rightarrow> real list" where
  "masked_areas p rr gt_bboxes inside_row =
     map (\<lambda>g. let area = bbox_area (gt_bboxes ! g);
                  area = (if \<not> inside_row ! g then INF_val else area);
                  area = (if \<not> inside_regress_range p rr (gt_bboxes ! g) then INF_val else area)
              in area)
       [0..<length gt_bboxes]"

text \<open>
  The loop over the positive points:
  \<^verbatim>\<open>
  for p, i in zip(pos_inds, pos_mask_ids):
      x, y = points[p]
      pos_mask_contour = gt_masks[i]
      dists, _ = get_polar_coordinates(x, y, pos_mask_contour, self.contour_points)
      mask_targets[p] = dists
      if self.normalized_centerness:
          centerness_target[p] = polar_centerness_target(dists, gt_max_centerness[i])
      else:
          centerness_target[p] = polar_centerness_target(dists)
  \<close>
\<close>

fun mask_loop ::
  "head_cfg \<Rightarrow> (real \<times> real) list \<Rightarrow> (real \<times> real) list list \<Rightarrow> real list \<Rightarrow> nat list \<Rightarrow>
     nat list \<Rightarrow> real list list \<times> real option list \<Rightarrow> error + real list list \<times> real option list" where
  "mask_loop cfg points gt_masks gt_max_centerness min_area_inds [] st = Inr st"
| "mask_loop cfg points gt_masks gt_max_centerness min_area_inds (p # pos_inds) (mask_targets, centerness_target) =
     (let i = min_area_inds ! p; x = fst (points ! p); y = snd (points ! p)
      in if length gt_masks \<le> i then Inl IndexError
         else
           (case get_polar_coordinates x y (gt_masks ! i) (contour_points cfg) of
              Inl e \<Rightarrow> Inl e
            | Inr (dists, _) \<Rightarrow>
                if normalized_centerness cfg \<and> length gt_max_centerness \<le> i then Inl IndexError
                else
                  (case polar_centerness_target dists
                          (if normalized_centerness cfg then Some (gt_max_centerness ! i) else None) of
                     Inl e \<Rightarrow> Inl e
                   | Inr c \<Rightarrow>
                       mask_loop cfg points gt_masks gt_max_centerness min_area_inds pos_inds
                         (mask_targets[p := dists], centerness_target[p := c]))))"

text \<open>
  \<^verbatim>\<open>polar_target_single(self, gt_bboxes, gt_masks, gt_labels, mask_centers, gt_max_centerness,
  points, regress_ranges)\<close>.  The areas are taken from \<open>gt_bboxes\<close> before it is expanded, so
  a single box for several labels passes \<open>expand\<close> but fails the masked assignment of \<open>INF\<close>.
\<close>

definition polar_target_single ::
  "head_cfg \<Rightarrow> bbox list \<Rightarrow> (real \<times> real) list list \<Rightarrow> int list \<Rightarrow> (real \<times> real) list \<Rightarrow>
     real list \<Rightarrow> (real \<times> real) list \<Rightarrow> (real \<times> real) list \<Rightarrow> error + targets" where
  "polar_target_single cfg gt_bboxes gt_masks gt_labels mask_centers gt_max_centerness points regress_ranges =
     (let num_points = length points;
          num_gts = length gt_labels
      in if num_gts = 0 then
           Inr (Targets2 (replicate num_points 0) (replicate num_points (0, 0, 0, 0)))
         else
           (case expand_rows num_points regress_ranges of
              Inl e \<Rightarrow> Inl e
            | Inr regress_ranges \<Rightarrow>
           (case expand_rows num_gts gt_bboxes of
              Inl e \<Rightarrow> Inl e
            | Inr gt_bboxes_e \<Rightarrow>
           (case expand_rows num_gts mask_centers of
              Inl e \<Rightarrow> Inl e
            | Inr mask_centers \<Rightarrow>
           (case inside_gt_bbox_mask cfg gt_bboxes_e mask_centers points of
              Inl e \<Rightarrow> Inl e
            | Inr inside \<Rightarrow>
                if length gt_bboxes \<noteq> num_gts then Inl IndexError
                else
                  let bbox_targets = map (\<lambda>p. map (edge_distances p) gt_bboxes_e) points;
                      areas = map (\<lambda>p. masked_areas (points ! p) (regress_ranges ! p) gt_bboxes_e (inside ! p))
                                [0..<num_points];
                      min_area = map (\<lambda>row. fst (min_with_index row)) areas;
                      min_area_inds = map (\<lambda>row. snd (min_with_index row)) areas;
                      labels = map (\<lambda>p. if min_area ! p = INF_val then 0 else gt_labels ! (min_area_inds ! p))
                                 [0..<num_points];
                      bbox_targets = map (\<lambda>p. bbox_targets ! p ! (min_area_inds ! p)) [0..<num_points];
                      pos_inds = filter (\<lambda>p. labels ! p \<noteq> 0) [0..<num_points];
                      mask_targets = replicate num_points (replicate (contour_points cfg) 0);
                      centerness_target = replicate num_points (Some 0)
                  in (case mask_loop cfg points gt_masks gt_max_centerness min_area_inds pos_inds
                             (mask_targets, centerness_target) of
                        Inl e \<Rightarrow> Inl e
                      | Inr (mask_targets, centerness_target) \<Rightarrow>
                          Inr (Targets4 labels bbox_targets mask_targets centerness_target)))))))"

section \<open>Decoder: \<^verbatim>\<open>distance2mask\<close>\<close>

text \<open>
  \<^verbatim>\<open>torch.range(start, end, step)\<close> includes \<open>end\<close>: \<open>floor((end - start) / step) + 1\<close>
  entries.  A zero step and bounds inconsistent with the sign of the step raise.
\<close>

definition torch_range :: "int \<Rightarrow> int \<Rightarrow> int \<Rightarrow> error + real list" where
  "torch_range start stop step =
     (if step = 0 then Inl RuntimeError
      else if \<not> ((0 < step \<and> start \<le> stop) \<or> (step < 0 \<and> stop \<le> start)) then Inl RuntimeError
      else Inr (map (\<lambda>k. of_int (start + int k * step)) [0..<nat ((stop - start) div step + 1)]))"

text \<open>
  Elementwise operations broadcast: along one dimension the sizes agree or one of them
  is 1.  A matrix is the list of its rows, so the row length of a matrix without rows is
  not represented.
\<close>

definition bcast :: "('a \<Rightarrow> 'b \<Rightarrow> 'c) \<Rightarrow> 'a list \<Rightarrow> 'b list \<Rightarrow> error + 'c list" where
  "bcast f xs ys =
     (if length xs = length ys then Inr (map2 f xs ys)
      else if length xs = 1 then Inr (map (f (hd xs)) ys)
      else if length ys = 1 then Inr (map (\<lambda>x. f x (hd ys)) xs)
      else Inl RuntimeError)"

fun sequence_err :: "(error + 'a) list \<Rightarrow> error + 'a list" where
  "sequence_err [] = Inr []"
| "sequence_err (r # rs) =
     (case r of
        Inl e \<Rightarrow> Inl e
      | Inr v \<Rightarrow> (case sequence_err rs of Inl e \<Rightarrow> Inl e | Inr vs \<Rightarrow> Inr (v # vs)))"

definition bcast_mat ::
  "('a \<Rightarrow> 'b \<Rightarrow> 'c) \<Rightarrow> 'a list list \<Rightarrow> 'b list list \<Rightarrow> error + 'c list list" where
  "bcast_mat f A B =
     (case bcast (bcast f) A B of Inl e \<Rightarrow> Inl e | Inr rows \<Rightarrow> sequence_err rows)"

text \<open>
  The third argument of \<^verbatim>\<open>distance2mask\<close> holds distances when \<open>use_fourier\<close> is off and
  Fourier coefficients (pairs of real and imaginary part, here complex numbers) when it is
  on.  The other combinations are ill-shaped calls and are modelled as \<^verbatim>\<open>RuntimeError\<close>.
\<close>

datatype mask_pred = Distances "real list list" | Coefficients "complex list list"

text \<open>
  \<^verbatim>\<open>
  if self.use_fourier:
      if train:
          distances = torch.irfft(torch.cat([distances, torch.zeros(distances.shape[0],
              self.contour_points - self.num_coe, 2, device=points.device)], 1),
              1, True, False).float().exp()
      else:
          distances = distances.reshape(-1, self.num_coe, 2)
          distances = torch.irfft(torch.cat([distances[..., :self.visulize_coe, :],
              torch.zeros(distances.shape[0], self.contour_points - self.visulize_coe, 2,
              device=points.device)], 1), 1, True, False).float().exp()
  \<close>
  \<^verbatim>\<open>reshape(-1, self.num_coe, 2)\<close> regroups all the coefficients, in order, into rows of
  \<open>num_coe\<close>; it raises when their number is not a multiple of \<open>num_coe\<close>.
\<close>

definition reshape_rows :: "nat \<Rightarrow> 'a list \<Rightarrow> 'a list list" where
  "reshape_rows n xs = map (\<lambda>i. take n (drop (i * n) xs)) [0..<length xs div n]"

definition fourier_decode :: "head_cfg \<Rightarrow> bool \<Rightarrow> mask_pred \<Rightarrow> error + real list list" where
  "fourier_decode cfg train distances =
     (if use_fourier cfg then
        (case distances of
           Distances _ \<Rightarrow> Inl RuntimeError
         | Coefficients rows \<Rightarrow>
             if train then
               if contour_points cfg < num_coe cfg then Inl RuntimeError
               else
                 (case sequence_err (map (fourier_inverse (contour_points cfg) (num_coe cfg)) rows) of
                    Inl e \<Rightarrow> Inl e
                  | Inr sig \<Rightarrow> Inr (map (map exp) sig))
             else
               let flat = concat rows in
               if num_coe cfg = 0 \<or> length flat mod num_coe cfg \<noteq> 0 then Inl RuntimeError
               else if contour_points cfg < visulize_coe cfg then Inl RuntimeError
               else
                 (case sequence_err
                         (map (\<lambda>row. fourier_inverse (contour_points cfg) (visulize_coe cfg)
                                        (take (visulize_coe cfg) row))
                            (reshape_rows (num_coe cfg) flat)) of
                    Inl e \<Rightarrow> Inl e
                  | Inr sig \<Rightarrow> Inr (map (map exp) sig)))
      else
        (case distances of
           Distances rows \<Rightarrow> Inr rows
         | Coefficients _ \<Rightarrow> Inl RuntimeError))"

text \<open>\<^verbatim>\<open>x.clamp(min=lo, max=hi)\<close> is \<open>min (max x lo) hi\<close>.\<close>

definition clamp :: "real \<Rightarrow> real \<Rightarrow> real \<Rightarrow> real" where
  "clamp lo hi x = min (max x lo) hi"

text \<open>
  \<^verbatim>\<open>
  def distance2mask(self, points, distances, max_shape=None, train=False, bbox=None):
      ... the Fourier step ...
      angles = torch.range(0, 359, self.interval, device=points.device) / 180 * math.pi
      num_points = points.shape[0]
      points = points[:, :, None].repeat(1, 1, angles.shape[0])
      c_x, c_y = points[:, 0], points[:, 1]
      sin = torch.sin(angles)
      cos = torch.cos(angles)
      sin = sin[None, :].repeat(num_points, 1)
      cos = cos[None, :].repeat(num_points, 1)
      x = distances * sin + c_x
      y = distances * cos + c_y
      if max_shape is not None:
          x = x.clamp(min=0, max=max_shape[1] - 1)
          y = y.clamp(min=0, max=max_shape[0] - 1)
      if bbox is not None:
          x = torch.max(torch.min(x, bbox[:, 2].unsqueeze(1)), bbox[:, 0].unsqueeze(1))
          y = torch.max(torch.min(y, bbox[:, 3].unsqueeze(1)), bbox[:, 1].unsqueeze(1))
      res = torch.cat([x[:, None, :], y[:, None, :]], dim=1)
      return res, distances
  \<close>
  \<open>max_shape\<close> is \<open>(max_shape[0], max_shape[1])\<close>, the height and the width of the image.
  The result pairs, for every row, the list of the \<open>x\<close> and the list of the \<open>y\<close> coordinates.
\<close>

definition distance2mask ::
  "head_cfg \<Rightarrow> (real \<times> real) list \<Rightarrow> mask_pred \<Rightarrow> (int \<times> int) option \<Rightarrow> bool \<Rightarrow> bbox list option \<Rightarrow>
     error + (real list \<times> real list) list \<times> real list list" where
  "distance2mask cfg points distances max_shape train bbox =
     (case fourier_decode cfg train distances of
        Inl e \<Rightarrow> Inl e
      | Inr distances \<Rightarrow>
     (case torch_range 0 359 (interval cfg) of
        Inl e \<Rightarrow> Inl e
      | Inr r \<Rightarrow>
          let angles = map (\<lambda>a. a / 180 * pi) r;
              c_x = map (\<lambda>p. map (\<lambda>_. fst p) angles) points;
              c_y = map (\<lambda>p. map (\<lambda>_. snd p) angles) points;
              sin_t = map (\<lambda>_. map sin angles) points;
              cos_t = map (\<lambda>_. map cos angles) points
          in
     (case bcast_mat times distances sin_t of Inl e \<Rightarrow> Inl e | Inr ds \<Rightarrow>
     (case bcast_mat plus ds c_x of Inl e \<Rightarrow> Inl e | Inr x \<Rightarrow>
     (case bcast_mat times distances cos_t of Inl e \<Rightarrow> Inl e | Inr dc \<Rightarrow>
     (case bcast_mat plus dc c_y of Inl e \<Rightarrow> Inl e | Inr y \<Rightarrow>
        let x = (case max_shape of
                   None \<Rightarrow> x
                 | Some shp \<Rightarrow> map (map (clamp 0 (of_int (snd shp - 1)))) x);
            y = (case max_shape of
                   None \<Rightarrow> y
                 | Some shp \<Rightarrow> map (map (clamp 0 (of_int (fst shp - 1)))) y)
        in
          (case bbox of
             None \<Rightarrow> Inr (zip x y, distances)
           | Some bb \<Rightarrow>
     (case bcast_mat min x (map (\<lambda>b. [fst (snd (snd b))]) bb) of Inl e \<Rightarrow> Inl e | Inr x1 \<Rightarrow>
     (case bcast_mat max x1 (map (\<lambda>b. [fst b]) bb) of Inl e \<Rightarrow> Inl e | Inr x2 \<Rightarrow>
     (case bcast_mat min y (map (\<lambda>b. [snd (snd (snd b))]) bb) of Inl e \<Rightarrow> Inl e | Inr y1 \<Rightarrow>
     (case bcast_mat max y1 (map (\<lambda>b. [fst (snd b)]) bb) of Inl e \<Rightarrow> Inl e | Inr y2 \<Rightarrow>
        if length x2 \<noteq> length y2 then Inl RuntimeError
        else Inr (zip x2 y2, distances))))))))))))"

section \<open>Inference: \<^verbatim>\<open>get_bboxes_single\<close>\<close>

text \<open>
  The tensor computations of \<^verbatim>\<open>get_bboxes_single\<close> (the body of its loop over the pyramid
  levels, concatenation, the divisions by the scale factor, the external non-maximum
  suppression) are parameters, each of which may raise; what is modelled is the control
  flow of the function and the binding of its local variables.
  \<^item> \<open>level_step\<close>: the loop body, from \<open>(cls_score, bbox_pred, mask_pred, centerness, points)\<close>
    to \<open>(bboxes, scores, centerness, masks)\<close>;
  \<^item> \<open>cat\<close>: \<^verbatim>\<open>torch.cat\<close>;
  \<^item> \<open>div_new_tensor t s\<close>: \<^verbatim>\<open>t / t.new_tensor(s)\<close>;
  \<^item> \<open>repeat_scale s\<close>: \<^verbatim>\<open>torch.tensor(s)[:2].cuda().unsqueeze(1).repeat(1, self.contour_points)\<close>;
  \<^item> \<open>div_tensor t s\<close>: \<^verbatim>\<open>t / s\<close>;
  \<^item> \<open>pad_scores\<close>: \<^verbatim>\<open>torch.cat([mlvl_scores.new_zeros(mlvl_scores.shape[0], 1), mlvl_scores], dim=1)\<close>;
  \<^item> \<open>mask_bboxes\<close>: the \<^verbatim>\<open>torch.stack\<close> of the minima and maxima of the masks;
  \<^item> \<open>add_factor\<close>: \<^verbatim>\<open>mlvl_centerness + self.centerness_factor\<close>;
  \<^item> \<open>nms\<close>: \<^verbatim>\<open>multiclass_nms_with_mask\<close> with the thresholds of \<open>cfg\<close>.
\<close>

record ('t, 's) tensor_ops =
  level_step :: "'t \<Rightarrow> 't \<Rightarrow> 't \<Rightarrow> 't \<Rightarrow> 't \<Rightarrow> error + 't \<times> 't \<times> 't \<times> 't"
  cat :: "'t list \<Rightarrow> error + 't"
  div_new_tensor :: "'t \<Rightarrow> 's \<Rightarrow> error + 't"
  repeat_scale :: "'s \<Rightarrow> error + 's"
  div_tensor :: "'t \<Rightarrow> 's \<Rightarrow> error + 't"
  pad_scores :: "'t \<Rightarrow> error + 't"
  mask_bboxes :: "'t \<Rightarrow> error + 't"
  add_factor :: "'t \<Rightarrow> error + 't"
  nms :: "'t \<Rightarrow> 't \<Rightarrow> 't \<Rightarrow> 't \<Rightarrow> error + 't \<times> 't \<times> 't"

text \<open>
  \<^verbatim>\<open>
  for cls_score, bbox_pred, mask_pred, centerness, points in zip(
          cls_scores, bbox_preds, mask_preds, centernesses, mlvl_points):
      ...
      mlvl_bboxes.append(bboxes)
      mlvl_scores.append(scores)
      mlvl_centerness.append(centerness)
      mlvl_masks.append(masks)
  \<close>
  \<open>zip\<close> stops at the shortest list.
\<close>

fun level_loop ::
  "('t, 's) tensor_ops \<Rightarrow> 't list \<Rightarrow> 't list \<Rightarrow> 't list \<Rightarrow> 't list \<Rightarrow> 't list \<Rightarrow>
     't list \<times> 't list \<times> 't list \<times> 't list \<Rightarrow> error + 't list \<times> 't list \<times> 't list \<times> 't list" where
  "level_loop ops (cls_score # cls_scores) (bbox_pred # bbox_preds) (mask_pred # mask_preds)
       (centerness # centernesses) (points # mlvl_points)
       (mlvl_bboxes, mlvl_scores, mlvl_centerness, mlvl_masks) =
     (case level_step ops cls_score bbox_pred mask_pred centerness points of
        Inl e \<Rightarrow> Inl e
      | Inr (bboxes, scores, centerness, masks) \<Rightarrow>
          level_loop ops cls_scores bbox_preds mask_preds centernesses mlvl_points
            (mlvl_bboxes @ [bboxes], mlvl_scores @ [scores],
             mlvl_centerness @ [centerness], mlvl_masks @ [masks]))"
| "level_loop ops cls_scores bbox_preds mask_preds centernesses mlvl_points acc = Inr acc"

text \<open>
  \<^verbatim>\<open>except (RuntimeError, TypeError, NameError, IndexError)\<close>; \<^verbatim>\<open>UnboundLocalError\<close> is a
  subclass of \<^verbatim>\<open>NameError\<close>.
\<close>

definition caught :: "error \<Rightarrow> bool" where
  "caught e = (e = RuntimeError \<or> e = TypeError \<or> e = NameError \<or> e = IndexError \<or> e = UnboundLocalError)"

text \<open>
  \<^verbatim>\<open>
  if rescale:
      _mlvl_bboxes = mlvl_bboxes / mlvl_bboxes.new_tensor(scale_factor)
      try:
          scale_factor = torch.tensor(scale_factor)[:2].cuda().unsqueeze(1).repeat(1, self.contour_points)
          _mlvl_masks = mlvl_masks / scale_factor
      except (RuntimeError, TypeError, NameError, IndexError):
          _mlvl_masks = mlvl_masks / mlvl_masks.new_tensor(scale_factor)
  \<close>
  The result is the binding of the locals \<^verbatim>\<open>_mlvl_bboxes\<close> and \<^verbatim>\<open>_mlvl_masks\<close> after the
  statement: \<open>None\<close> is an unbound local.  \<open>rescale\<close> is \<open>None\<close>, \<open>False\<close> or \<open>True\<close>.
\<close>

definition rescale_step ::
  "('t, 's) tensor_ops \<Rightarrow> bool option \<Rightarrow> 't \<Rightarrow> 't \<Rightarrow> 's \<Rightarrow> error + 't option \<times> 't option" where
  "rescale_step ops rescale mlvl_bboxes mlvl_masks scale_factor =
     (if rescale = Some True then
        (case div_new_tensor ops mlvl_bboxes scale_factor of
           Inl e \<Rightarrow> Inl e
         | Inr b \<Rightarrow>
            (case (case repeat_scale ops scale_factor of
                     Inl e \<Rightarrow> if caught e then div_new_tensor ops mlvl_masks scale_factor else Inl e
                   | Inr scale_factor' \<Rightarrow>
                       (case div_tensor ops mlvl_masks scale_factor' of
                          Inl e \<Rightarrow> if caught e then div_new_tensor ops mlvl_masks scale_factor' else Inl e
                        | Inr m \<Rightarrow> Inr m)) of
               Inl e \<Rightarrow> Inl e
             | Inr m \<Rightarrow> Inr (Some b, Some m)))
      else Inr (None, None))"

text \<open>
  \<^verbatim>\<open>
  def get_bboxes_single(self, cls_scores, bbox_preds, mask_preds, centernesses, mlvl_points,
                        img_shape, scale_factor, cfg, rescale=False):
      assert len(cls_scores) == len(bbox_preds) == len(mlvl_points)
      ... the loop ...
      mlvl_bboxes = torch.cat(mlvl_bboxes)
      mlvl_masks = torch.cat(mlvl_masks)
      ... the rescale statement ...
      mlvl_scores = torch.cat(mlvl_scores)
      padding = mlvl_scores.new_zeros(mlvl_scores.shape[0], 1)
      mlvl_scores = torch.cat([padding, mlvl_scores], dim=1)
      mlvl_centerness = torch.cat(mlvl_centerness)
      if self.mask_nms:
          _mlvl_bboxes = torch.stack([_mlvl_masks[:, 0].min(1)[0], ...], -1)
          det_bboxes, det_labels, det_masks = multiclass_nms_with_mask(
              _mlvl_bboxes, mlvl_scores, _mlvl_masks, cfg.score_thr, cfg.nms, cfg.max_per_img,
              score_factors=mlvl_centerness + self.centerness_factor)
      else:
          det_bboxes, det_labels, det_masks = multiclass_nms_with_mask(
              _mlvl_bboxes, mlvl_scores, _mlvl_masks, cfg.score_thr, cfg.nms, cfg.max_per_img,
              score_factors=mlvl_centerness + self.centerness_factor)
      return det_bboxes, det_labels, det_masks
  \<close>
  Reading an unbound local raises \<^verbatim>\<open>UnboundLocalError\<close>; the arguments of a call are
  evaluated from left to right.
\<close>

definition get_bboxes_single ::
  "('t, 's) tensor_ops \<Rightarrow> bool \<Rightarrow> 't list \<Rightarrow> 't list \<Rightarrow> 't list \<Rightarrow> 't list \<Rightarrow> 't list \<Rightarrow>
     's \<Rightarrow> bool option \<Rightarrow> error + 't \<times> 't \<times> 't" where
  "get_bboxes_single ops mask_nms cls_scores bbox_preds mask_preds centernesses mlvl_points
       scale_factor rescale =
     (if \<not> (length cls_scores = length bbox_preds \<and> length bbox_preds = length mlvl_points)
      then Inl AssertionError
      else
     (case level_loop ops cls_scores bbox_preds mask_preds centernesses mlvl_points ([], [], [], []) of
        Inl e \<Rightarrow> Inl e
      | Inr (mlvl_bboxes, mlvl_scores, mlvl_centerness, mlvl_masks) \<Rightarrow>
     (case cat ops mlvl_bboxes of Inl e \<Rightarrow> Inl e | Inr mlvl_bboxes \<Rightarrow>
     (case cat ops mlvl_masks of Inl e \<Rightarrow> Inl e | Inr mlvl_masks \<Rightarrow>
     (case rescale_step ops rescale mlvl_bboxes mlvl_masks scale_factor of
        Inl e \<Rightarrow> Inl e
      | Inr (u_mlvl_bboxes, u_mlvl_masks) \<Rightarrow>
     (case cat ops mlvl_scores of Inl e \<Rightarrow> Inl e | Inr mlvl_scores \<Rightarrow>
     (case pad_scores ops mlvl_scores of Inl e \<Rightarrow> Inl e | Inr mlvl_scores \<Rightarrow>
     (case cat ops mlvl_centerness of Inl e \<Rightarrow> Inl e | Inr mlvl_centerness \<Rightarrow>
        if mask_nms then
          (case u_mlvl_masks of
             None \<Rightarrow> Inl UnboundLocalError
           | Some m \<Rightarrow>
              (case mask_bboxes ops m of Inl e \<Rightarrow> Inl e | Inr b \<Rightarrow>
              (case add_factor ops mlvl_centerness of Inl e \<Rightarrow> Inl e | Inr sf \<Rightarrow>
                 nms ops b mlvl_scores m sf)))
        else
          (case u_mlvl_bboxes of
             None \<Rightarrow> Inl UnboundLocalError
           | Some b \<Rightarrow>
              (case u_mlvl_masks of
                 None \<Rightarrow> Inl UnboundLocalError
               | Some m \<Rightarrow>
                  (case add_factor ops mlvl_centerness of Inl e \<Rightarrow> Inl e | Inr sf \<Rightarrow>
                     nms ops b mlvl_scores m sf)))))))))))"

text \<open>
  A small instance of the operations, for running the function: a tensor is a list of
  naturals, the scale factor a natural, and moving the scale factor to the GPU fails.
\<close>

definition demo_ops :: "(nat list, nat) tensor_ops" where
  "demo_ops = \<lparr>
     level_step = (\<lambda>cls_score bbox_pred mask_pred centerness points.
                     Inr (bbox_pred, cls_score, centerness, mask_pred)),
     cat = (\<lambda>ts. if ts = [] then Inl RuntimeError else Inr (concat ts)),
     div_new_tensor = (\<lambda>t s. if s = 0 then Inl ZeroDivisionError else Inr (map (\<lambda>v. v div s) t)),
     repeat_scale = (\<lambda>s. Inl RuntimeError),
     div_tensor = (\<lambda>t s. Inr (map (\<lambda>v. v div s) t)),
     pad_scores = (\<lambda>t. Inr (0 # t)),
     mask_bboxes = (\<lambda>t. Inr t),
     add_factor = (\<lambda>t. Inr t),
     nms = (\<lambda>b s m f. Inr (b, s, m)) \<rparr>"

text \<open>A head with four contour points and plain distance masks, for running the functions.\<close>

definition cfg4 :: head_cfg where
  "cfg4 = \<lparr> use_fourier = False, contour_points = 4, num_coe = 2, visulize_coe = 2,
            strides = [4, 8, 16, 32, 64], num_points_per_level = [1],
            center_sample = False, use_mask_center = True, radius = 3 / 2,
            normalized_centerness = False \<rparr>"

text \<open>
  Instance \<open>g\<close> passes both tests at point \<open>p\<close>: the inclusion test, read from the matrix
  \<open>inside\<close> that \<open>inside_gt_bbox_mask\<close> returned, and the regression-range test.
\<close>

definition passes :: "bool list list \<Rightarrow> (real \<times> real) list \<Rightarrow> (real \<times> real) list \<Rightarrow> bbox list \<Rightarrow> nat \<Rightarrow> nat \<Rightarrow> bool" where
  "passes inside points regress_ranges gt_bboxes p g \<longleftrightarrow>
     g < length gt_bboxes \<and> inside ! p ! g \<and>
     inside_regress_range (points ! p) (regress_ranges ! p) (gt_bboxes ! g)"

text \<open>A head with center sampling around the mask centers, two pyramid levels.\<close>

definition cfg_cs :: head_cfg where
  "cfg_cs = \<lparr> use_fourier = False, contour_points = 4, num_coe = 2, visulize_coe = 2,
            strides = [4, 8], num_points_per_level = [2, 1],
            center_sample = True, use_mask_center = True, radius = 3 / 2,
            normalized_centerness = False \<rparr>"

section \<open>Properties of the point grid\<close>

lemma arange_zero_start:
  assumes "stride \<noteq> 0"
  shows "arange 0 (int w * stride) stride = Inr (map (\<lambda>k. int k * stride) [0..<w])"
proof -
  have "(- (int w * stride)) div stride = - int w"
    using assms by (metis div_minus_right minus_mult_left mult.commute neg_equal_iff_equal nonzero_mult_div_cancel_left div_minus_minus mult_minus_right)
  then have n: "nat (- ((0 - int w * stride) div stride)) = w"
    by simp
  have sgn: "(0 < stride \<and> 0 \<le> int w * stride) \<or> (stride < 0 \<and> int w * stride \<le> 0)"
    using assms by (cases "0 < stride") (auto simp: mult_nonneg_nonpos)
  show ?thesis
    unfolding arange_def using assms sgn n by simp
qed

lemma zip_const_right: "zip xs (map (\<lambda>_. y) xs) = map (\<lambda>x. (x, y)) xs"
  by (induction xs) auto

lemma zip_meshgrid:
  "zip (concat (map (\<lambda>_. xs) ys)) (concat (map (\<lambda>y. map (\<lambda>_. y) xs) ys))
     = concat (map (\<lambda>y. map (\<lambda>x. (x, y)) xs) ys)"
  by (induction ys) (auto simp: zip_const_right)

lemma length_concat_rows:
  "length (concat (map (\<lambda>y. map (f y) xs) ys)) = length ys * length xs"
  by (induction ys) auto

lemma nth_concat_rows:
  "i < length ys \<Longrightarrow> j < length xs \<Longrightarrow>
     concat (map (\<lambda>y. map (f y) xs) ys) ! (i * length xs + j) = f (ys ! i) (xs ! j)"
proof (induction ys arbitrary: i)
  case Nil
  then show ?case by simp
next
  case (Cons y ys)
  show ?case
  proof (cases i)
    case 0
    with Cons.prems show ?thesis by (simp add: nth_append)
  next
    case (Suc i')
    with Cons.prems have "i' < length ys" by simp
    from Cons.IH [OF this Cons.prems(2)] Suc show ?thesis
      by (simp add: nth_append add.assoc)
  qed
qed

lemma get_points_single_eq:
  assumes "stride \<noteq> 0"
  shows "get_points_single (h, w) stride =
           Inr (concat (map (\<lambda>i. map (\<lambda>j. (int j * stride + stride div 2, int i * stride + stride div 2)) [0..<w]) [0..<h]))"
proof -
  let ?xr = "map (\<lambda>k. int k * stride) [0..<w]"
  let ?yr = "map (\<lambda>k. int k * stride) [0..<h]"
  have shift: "map (\<lambda>(px, py). (px + stride div 2, py + stride div 2))
          (concat (map (\<lambda>y. map (\<lambda>x. (x, y)) ?xr) ?yr))
        = concat (map (\<lambda>i. map (\<lambda>j. (int j * stride + stride div 2, int i * stride + stride div 2)) [0..<w]) [0..<h])"
    by (simp add: map_concat comp_def)
  have "get_points_single (h, w) stride =
          Inr (map (\<lambda>(px, py). (px + stride div 2, py + stride div 2))
                 (zip (concat (map (\<lambda>_. ?xr) ?yr)) (concat (map (\<lambda>y. map (\<lambda>_. y) ?xr) ?yr))))"
    unfolding get_points_single_def meshgrid_def arange_zero_start [OF assms]
    by (simp only: prod.case sum.case)
  also have "\<dots> = Inr (map (\<lambda>(px, py). (px + stride div 2, py + stride div 2))
                 (concat (map (\<lambda>y. map (\<lambda>x. (x, y)) ?xr) ?yr)))"
    by (simp only: zip_meshgrid)
  finally show ?thesis
    by (simp only: shift)
qed

text \<open>
  Claim C10.  For a feature map of \<open>h\<close> rows and \<open>w\<close> columns and a non-zero integer stride
  \<open>s\<close>, \<^verbatim>\<open>get_points_single\<close> returns exactly \<open>h * w\<close> points in row-major order, and the
  point of row \<open>i\<close>, column \<open>j\<close> is \<open>(j * s + s div 2, i * s + s div 2)\<close>, where \<open>s div 2\<close> is
  the floor division \<^verbatim>\<open>stride // 2\<close> of the source.
\<close>

theorem get_points_single_grid:
  assumes "s \<noteq> 0"
  shows "\<exists>pts. get_points_single (h, w) s = Inr pts \<and> length pts = h * w \<and>
           (\<forall>i<h. \<forall>j<w. pts ! (i * w + j) = (int j * s + s div 2, int i * s + s div 2))"
proof -
  let ?pts = "concat (map (\<lambda>i. map (\<lambda>j. (int j * s + s div 2, int i * s + s div 2)) [0..<w]) [0..<h])"
  have "length ?pts = h * w"
    using length_concat_rows [of "\<lambda>i j. (int j * s + s div 2, int i * s + s div 2)" "[0..<w]" "[0..<h]"]
    by simp
  moreover have "\<forall>i<h. \<forall>j<w. ?pts ! (i * w + j) = (int j * s + s div 2, int i * s + s div 2)"
    using nth_concat_rows [of _ "[0..<h]" _ "[0..<w]" "\<lambda>i j. (int j * s + s div 2, int i * s + s div 2)"]
    by simp
  ultimately show ?thesis
    using get_points_single_eq [OF assms] by blast
qed

theorem get_points_single_grid_witness:
  "\<exists>pts. get_points_single (2, 3) 8 = Inr pts \<and> length pts = 2 * 3 \<and>
     (\<forall>i<2. \<forall>j<3. pts ! (i * 3 + j) = (int j * 8 + 8 div 2, int i * 8 + 8 div 2))"
  using get_points_single_grid [of 8 2 3] by simp

section \<open>Properties of the centerness score\<close>

lemma pos_ratio:
  assumes "sig \<noteq> []" "\<forall>d\<in>set sig. 0 < (d::real)"
  shows "0 < Min (set sig)" "0 < Max (set sig)" "Min (set sig) \<le> Max (set sig)"
proof -
  have fin: "finite (set sig)" "set sig \<noteq> {}" using assms by auto
  show "0 < Min (set sig)" using assms fin by (simp add: Min_gr_iff)
  have "hd sig \<in> set sig" using assms(1) by simp
  then have "Min (set sig) \<le> hd sig" "hd sig \<le> Max (set sig)" by simp_all
  then show "Min (set sig) \<le> Max (set sig)" by linarith
  with \<open>0 < Min (set sig)\<close> show "0 < Max (set sig)" by linarith
qed

text \<open>
  Claim C9.  For a non-empty signal with strictly positive entries,
  \<^verbatim>\<open>polar_centerness_target\<close> returns \<open>sqrt (min / max)\<close> clamped to at most 1; with a
  non-zero normalizer the square root is divided by it before the clamp.  A uniform
  signal scores 1, and a signal with minimum 1 and maximum 4 scores 1/2.
\<close>

theorem polar_centerness_target_score:
  assumes "sig \<noteq> []" and "\<forall>d\<in>set sig. 0 < d"
  shows "polar_centerness_target sig None
           = Inr (Some (min (sqrt (Min (set sig) / Max (set sig))) 1))
       \<and> (m \<noteq> 0 \<longrightarrow> polar_centerness_target sig (Some m)
           = Inr (Some (min (sqrt (Min (set sig) / Max (set sig)) / m) 1)))
       \<and> ((\<forall>d\<in>set sig. d = hd sig) \<longrightarrow> polar_centerness_target sig None = Inr (Some 1))
       \<and> (Min (set sig) = 1 \<and> Max (set sig) = 4 \<longrightarrow> polar_centerness_target sig None = Inr (Some (1 / 2)))"
proof -
  note p = pos_ratio [OF assms]
  have nz: "\<not> (Max (set sig) = 0 \<or> Min (set sig) / Max (set sig) < 0)"
    using p by (simp add: not_less)
  have a: "polar_centerness_target sig None
           = Inr (Some (min (sqrt (Min (set sig) / Max (set sig))) 1))"
    using assms(1) nz by (simp add: polar_centerness_target_def truthy_def Let_def)
  have b: "m \<noteq> 0 \<longrightarrow> polar_centerness_target sig (Some m)
           = Inr (Some (min (sqrt (Min (set sig) / Max (set sig)) / m) 1))"
    using assms(1) nz by (simp add: polar_centerness_target_def truthy_def Let_def)
  have c: "(\<forall>d\<in>set sig. d = hd sig) \<longrightarrow> polar_centerness_target sig None = Inr (Some 1)"
  proof
    assume u: "\<forall>d\<in>set sig. d = hd sig"
    have "set sig = {hd sig}" using u assms(1) by (cases sig) auto
    then have "Min (set sig) = hd sig" "Max (set sig) = hd sig" by simp_all
    moreover have "0 < hd sig" using assms by (cases sig) auto
    ultimately show "polar_centerness_target sig None = Inr (Some 1)"
      unfolding a by simp
  qed
  have d: "Min (set sig) = 1 \<and> Max (set sig) = 4 \<longrightarrow> polar_centerness_target sig None = Inr (Some (1 / 2))"
  proof
    assume "Min (set sig) = 1 \<and> Max (set sig) = 4"
    then have "sqrt (Min (set sig) / Max (set sig)) = 1 / 2"
      by (simp add: real_sqrt_divide)
    then show "polar_centerness_target sig None = Inr (Some (1 / 2))"
      unfolding a by simp
  qed
  from a b c d show ?thesis by blast
qed

theorem polar_centerness_target_score_witness:
  "polar_centerness_target [1, 2, 4] None = Inr (Some (1 / 2))
   \<and> polar_centerness_target [1, 2, 4] (Some (1 / 4)) = Inr (Some 1)
   \<and> polar_centerness_target [3, 3] None = Inr (Some 1)"
proof -
  have "polar_centerness_target [1, 2, 4] None = Inr (Some (1 / 2))"
    using polar_centerness_target_score [of "[1, 2, 4]" 1] by (simp add: real_sqrt_divide)
  moreover have "polar_centerness_target [1, 2, 4] (Some (1 / 4)) = Inr (Some 1)"
    using polar_centerness_target_score [of "[1, 2, 4]" "1 / 4"] by (simp add: real_sqrt_divide)
  moreover have "polar_centerness_target [3, 3] None = Inr (Some 1)"
    using polar_centerness_target_score [of "[3, 3]" 1] by simp
  ultimately show ?thesis by blast
qed


section \<open>Images without ground truth\<close>

text \<open>
  Claim C1.  For an image whose list of ground-truth labels is empty,
  \<^verbatim>\<open>polar_target_single\<close> returns a pair: the all-background labels and the zero
  bbox-regression targets.  It returns no mask targets and no centerness targets.
\<close>

theorem polar_target_single_no_gt:
  "polar_target_single cfg gt_bboxes gt_masks [] mask_centers gt_max_centerness points regress_ranges
     = Inr (Targets2 (replicate (length points) 0) (replicate (length points) (0, 0, 0, 0)))"
  by (simp add: polar_target_single_def Let_def)

text \<open>With at least one ground-truth label a returned value is a 4-tuple.\<close>

lemma polar_target_single_regular:
  assumes "gt_labels \<noteq> []"
    and "polar_target_single cfg gt_bboxes gt_masks gt_labels mask_centers gt_max_centerness points regress_ranges = Inr t"
  shows "\<exists>labels bbox_targets mask_targets centerness_target.
           t = Targets4 labels bbox_targets mask_targets centerness_target"
  using assms unfolding polar_target_single_def Let_def
  by (auto split: sum.splits if_splits prod.splits)

section \<open>The rescale flag of the inference decode\<close>

lemma rescale_step_unbound:
  "rescale \<noteq> Some True \<Longrightarrow> rescale_step ops rescale b m s = Inr (None, None)"
  by (simp add: rescale_step_def)

text \<open>
  Claim C8.  When \<open>rescale\<close> is \<open>False\<close> or \<open>None\<close>, \<^verbatim>\<open>get_bboxes_single\<close> raises for every
  input and every behaviour of the tensor operations; when everything before the call of
  the non-maximum suppression succeeds, the exception is the \<^verbatim>\<open>UnboundLocalError\<close> of
  reading \<^verbatim>\<open>_mlvl_bboxes\<close> or \<^verbatim>\<open>_mlvl_masks\<close>, which only the rescale branch assigns.
  So the function returns a result only when \<open>rescale\<close> is true.
\<close>

theorem get_bboxes_single_unbound:
  assumes "rescale \<noteq> Some True"
  shows "(\<exists>e. get_bboxes_single ops mask_nms cls_scores bbox_preds mask_preds centernesses mlvl_points
                 scale_factor rescale = Inl e)
       \<and> (\<forall>lb ls lc lm b m s s' c.
             length cls_scores = length bbox_preds \<and> length bbox_preds = length mlvl_points \<and>
             level_loop ops cls_scores bbox_preds mask_preds centernesses mlvl_points ([], [], [], [])
               = Inr (lb, ls, lc, lm) \<and>
             cat ops lb = Inr b \<and> cat ops lm = Inr m \<and> cat ops ls = Inr s \<and>
             pad_scores ops s = Inr s' \<and> cat ops lc = Inr c
             \<longrightarrow> get_bboxes_single ops mask_nms cls_scores bbox_preds mask_preds centernesses mlvl_points
                   scale_factor rescale = Inl UnboundLocalError)"
proof -
  have a: "\<exists>e. get_bboxes_single ops mask_nms cls_scores bbox_preds mask_preds centernesses mlvl_points
                 scale_factor rescale = Inl e"
    unfolding get_bboxes_single_def
    by (simp add: rescale_step_unbound [OF assms] split: sum.splits prod.splits)
  have b: "\<forall>lb ls lc lm b m s s' c.
             length cls_scores = length bbox_preds \<and> length bbox_preds = length mlvl_points \<and>
             level_loop ops cls_scores bbox_preds mask_preds centernesses mlvl_points ([], [], [], [])
               = Inr (lb, ls, lc, lm) \<and>
             cat ops lb = Inr b \<and> cat ops lm = Inr m \<and> cat ops ls = Inr s \<and>
             pad_scores ops s = Inr s' \<and> cat ops lc = Inr c
             \<longrightarrow> get_bboxes_single ops mask_nms cls_scores bbox_preds mask_preds centernesses mlvl_points
                   scale_factor rescale = Inl UnboundLocalError"
    unfolding get_bboxes_single_def
    by (simp add: rescale_step_unbound [OF assms])
  from a b show ?thesis by blast
qed

theorem get_bboxes_single_unbound_witness:
  "get_bboxes_single demo_ops False [[1]] [[4]] [[6]] [[1]] [[0]] 2 None = Inl UnboundLocalError
   \<and> get_bboxes_single demo_ops True [[1]] [[4]] [[6]] [[1]] [[0]] 2 (Some False) = Inl UnboundLocalError"
proof -
  have "get_bboxes_single demo_ops False [[1]] [[4]] [[6]] [[1]] [[0]] 2 None = Inl UnboundLocalError"
    using get_bboxes_single_unbound [of None demo_ops False "[[1]]" "[[4]]" "[[6]]" "[[1]]" "[[0]]" 2]
    by (simp add: demo_ops_def)
  moreover have "get_bboxes_single demo_ops True [[1]] [[4]] [[6]] [[1]] [[0]] 2 (Some False) = Inl UnboundLocalError"
    using get_bboxes_single_unbound [of "Some False" demo_ops True "[[1]]" "[[4]]" "[[6]]" "[[1]]" "[[0]]" 2]
    by (simp add: demo_ops_def)
  ultimately show ?thesis by blast
qed

text \<open>With \<open>rescale\<close> true the same call returns.\<close>

lemma get_bboxes_single_rescaled_example:
  "get_bboxes_single demo_ops False [[1]] [[4]] [[6]] [[1]] [[0]] 2 (Some True) = Inr ([2], [0, 1], [3])"
  by (simp add: get_bboxes_single_def demo_ops_def rescale_step_def caught_def)


section \<open>Properties of the decoder\<close>

lemma sequence_err_Inr: "sequence_err (map Inr xs) = Inr xs"
  by (induction xs) auto

lemma bcast_same_length: "length xs = length ys \<Longrightarrow> bcast f xs ys = Inr (map2 f xs ys)"
  by (simp add: bcast_def)

lemma bcast_mat_same_shape:
  assumes "length A = length B" and "\<forall>i<length A. length (A ! i) = length (B ! i)"
  shows "bcast_mat f A B = Inr (map2 (map2 f) A B)"
proof -
  have "map2 (bcast f) A B = map Inr (map2 (map2 f) A B)"
    using assms
  proof (induction A B rule: list_induct2)
    case Nil
    then show ?case by simp
  next
    case (Cons a A b B)
    have "length a = length b" using Cons.prems by (metis length_Cons nth_Cons_0 zero_less_Suc)
    moreover have "\<forall>i<length A. length (A ! i) = length (B ! i)"
      using Cons.prems by (metis Suc_less_eq length_Cons nth_Cons_Suc)
    ultimately show ?case using Cons.IH by (simp add: bcast_same_length)
  qed
  then have "bcast (bcast f) A B = Inr (map Inr (map2 (map2 f) A B))"
    by (simp only: bcast_same_length [OF assms(1)])
  then show ?thesis
    by (simp only: bcast_mat_def sum.case sequence_err_Inr)
qed

lemma interval_count:
  assumes "0 < n" and "n dvd 360"
  shows "0 < 360 div int n" and "nat (359 div (360 div int n) + 1) = n"
    and "int n * (360 div int n) = 360"
proof -
  let ?i = "360 div int n"
  have d: "int n dvd 360" using assms(2) by (metis int_dvd_int_iff of_nat_numeral)
  then show m: "int n * ?i = 360" by simp
  have npos: "0 < int n" using assms(1) by simp
  show ipos: "0 < ?i"
  proof (rule ccontr)
    assume "\<not> 0 < ?i"
    then have "?i \<le> 0" by simp
    then have "int n * ?i \<le> 0" using npos by (simp add: mult_nonneg_nonpos)
    with m show False by simp
  qed
  have e: "359 = (int n - 1) * ?i + (?i - 1)"
    using m by (simp add: algebra_simps)
  have "359 div ?i = ((int n - 1) * ?i + (?i - 1)) div ?i"
    by (simp only: e [symmetric])
  also have "\<dots> = (int n - 1) + (?i - 1) div ?i"
    using ipos by simp
  also have "(?i - 1) div ?i = 0"
    using ipos by (simp add: div_pos_pos_trivial)
  finally show "nat (359 div ?i + 1) = n" by simp
qed

lemma torch_range_angles:
  assumes "0 < n" and "n dvd 360"
  shows "torch_range 0 359 (360 div int n) = Inr (map (\<lambda>k. of_int (int k * (360 div int n))) [0..<n])"
  using interval_count [OF assms] by (simp add: torch_range_def)

lemma row_vertices:
  assumes "length ds = length angles"
  shows "map2 plus (map2 times ds (map f angles)) (map (\<lambda>_. c) angles)
           = map (\<lambda>i. ds ! i * f (angles ! i) + (c::real)) [0..<length angles]"
  using assms by (intro nth_equalityI) auto

lemma zip_map_same: "zip (map f zs) (map g zs) = map (\<lambda>z. (f z, g z)) zs"
  by (induction zs) auto

lemma decode_plain:
  assumes nf: "\<not> use_fourier cfg" and n0: "0 < contour_points cfg" and nd: "contour_points cfg dvd 360"
    and lr: "length rows = length points" and rl: "\<forall>ds\<in>set rows. length ds = contour_points cfg"
  shows "distance2mask cfg points (Distances rows) max_shape train None =
     Inr (map2 (\<lambda>p ds.
            (map (\<lambda>i. (case max_shape of None \<Rightarrow> (\<lambda>v. v) | Some shp \<Rightarrow> clamp 0 (of_int (snd shp - 1)))
                         (ds ! i * sin (of_int (int i * interval cfg) / 180 * pi) + fst p))
               [0..<contour_points cfg],
             map (\<lambda>i. (case max_shape of None \<Rightarrow> (\<lambda>v. v) | Some shp \<Rightarrow> clamp 0 (of_int (fst shp - 1)))
                         (ds ! i * cos (of_int (int i * interval cfg) / 180 * pi) + snd p))
               [0..<contour_points cfg]))
          points rows, rows)"
proof -
  let ?N = "contour_points cfg"
  let ?angles = "map (\<lambda>a. a / 180 * pi) (map (\<lambda>k. of_int (int k * interval cfg)) [0..<?N]) :: real list"
  let ?sin_t = "map (\<lambda>_. map sin ?angles) points"
  let ?cos_t = "map (\<lambda>_. map cos ?angles) points"
  let ?c_x = "map (\<lambda>p. map (\<lambda>_. fst p) ?angles) points"
  let ?c_y = "map (\<lambda>p. map (\<lambda>_. snd p) ?angles) points"
  let ?X = "map2 (\<lambda>p ds. map (\<lambda>i. ds ! i * sin (of_int (int i * interval cfg) / 180 * pi) + fst p) [0..<?N]) points rows"
  let ?Y = "map2 (\<lambda>p ds. map (\<lambda>i. ds ! i * cos (of_int (int i * interval cfg) / 180 * pi) + snd p) [0..<?N]) points rows"
  have la: "length ?angles = ?N" by simp
  have rows_len: "\<And>i. i < length rows \<Longrightarrow> length (rows ! i) = ?N"
    using rl by simp
  have fd: "fourier_decode cfg train (Distances rows) = Inr rows"
    using nf by (simp add: fourier_decode_def)
  have tr: "torch_range 0 359 (interval cfg) = Inr (map (\<lambda>k. of_int (int k * interval cfg)) [0..<?N])"
    unfolding interval_def by (rule torch_range_angles [OF n0 nd])
  have s1: "bcast_mat times rows ?sin_t = Inr (map2 (map2 times) rows ?sin_t)"
    by (rule bcast_mat_same_shape) (use lr rows_len in auto)
  have c1: "bcast_mat times rows ?cos_t = Inr (map2 (map2 times) rows ?cos_t)"
    by (rule bcast_mat_same_shape) (use lr rows_len in auto)
  have s2: "bcast_mat plus (map2 (map2 times) rows ?sin_t) ?c_x = Inr (map2 (map2 plus) (map2 (map2 times) rows ?sin_t) ?c_x)"
    by (rule bcast_mat_same_shape) (use lr rows_len in auto)
  have c2: "bcast_mat plus (map2 (map2 times) rows ?cos_t) ?c_y = Inr (map2 (map2 plus) (map2 (map2 times) rows ?cos_t) ?c_y)"
    by (rule bcast_mat_same_shape) (use lr rows_len in auto)
  have x: "map2 (map2 plus) (map2 (map2 times) rows ?sin_t) ?c_x = ?X"
  proof (rule nth_equalityI)
    show "length (map2 (map2 plus) (map2 (map2 times) rows ?sin_t) ?c_x) = length ?X"
      using lr by simp
  next
    fix i assume "i < length (map2 (map2 plus) (map2 (map2 times) rows ?sin_t) ?c_x)"
    then have i: "i < length rows" "i < length points" using lr by simp_all
    have "length (rows ! i) = length ?angles" using rows_len [OF i(1)] by simp
    from row_vertices [OF this, of sin "fst (points ! i)"] i
    show "map2 (map2 plus) (map2 (map2 times) rows ?sin_t) ?c_x ! i = ?X ! i"
      by simp
  qed
  have y: "map2 (map2 plus) (map2 (map2 times) rows ?cos_t) ?c_y = ?Y"
  proof (rule nth_equalityI)
    show "length (map2 (map2 plus) (map2 (map2 times) rows ?cos_t) ?c_y) = length ?Y"
      using lr by simp
  next
    fix i assume "i < length (map2 (map2 plus) (map2 (map2 times) rows ?cos_t) ?c_y)"
    then have i: "i < length rows" "i < length points" using lr by simp_all
    have "length (rows ! i) = length ?angles" using rows_len [OF i(1)] by simp
    from row_vertices [OF this, of cos "snd (points ! i)"] i
    show "map2 (map2 plus) (map2 (map2 times) rows ?cos_t) ?c_y ! i = ?Y ! i"
      by simp
  qed
  have d: "distance2mask cfg points (Distances rows) max_shape train None =
          Inr (zip (case max_shape of None \<Rightarrow> ?X | Some shp \<Rightarrow> map (map (clamp 0 (of_int (snd shp - 1)))) ?X)
                   (case max_shape of None \<Rightarrow> ?Y | Some shp \<Rightarrow> map (map (clamp 0 (of_int (fst shp - 1)))) ?Y), rows)"
    unfolding distance2mask_def fd tr
    by (simp only: sum.case Let_def s1 s2 c1 c2 x y option.case)
  show ?thesis
    unfolding d
    by (cases max_shape) (simp_all add: zip_map_same map_zip_map2 comp_def case_prod_unfold)
qed

lemma quarter_turns:
  "sin (pi / 2 * 3) = - 1" "cos (pi / 2 * 3) = 0" "sin (3 * pi / 2) = - 1" "cos (3 * pi / 2) = 0"
  using sin_3over2_pi cos_3over2_pi by (simp_all add: mult.commute)

lemma upt_4: "[0..<4] = [0, 1, 2, 3]"
  by (simp add: upt_rec)

text \<open>
  Claim C7.  With plain distance masks, a bin count \<open>N\<close> that divides 360 and one signal
  of length \<open>N\<close> per sample point, \<^verbatim>\<open>distance2mask\<close> returns for the point \<open>(px, py)\<close> and
  the signal \<open>d\<close> the \<open>N\<close> vertices \<open>x_i = d_i * sin(angle_i) + px\<close>,
  \<open>y_i = d_i * cos(angle_i) + py\<close> at the angles \<open>angle_i = i * (360 div N)\<close> degrees; with an
  image shape \<open>(h, w)\<close> every \<open>x_i\<close> is clamped into \<open>[0, w - 1]\<close> and every \<open>y_i\<close> into
  \<open>[0, h - 1]\<close>.  For \<open>N = 4\<close>, the point \<open>(10, 10)\<close> and the constant signal \<open>d\<close> the vertices
  are \<open>(10, 10 + d)\<close>, \<open>(10 + d, 10)\<close>, \<open>(10, 10 - d)\<close>, \<open>(10 - d, 10)\<close>.
\<close>

theorem distance2mask_polygon:
  "(\<not> use_fourier cfg \<and> 0 < contour_points cfg \<and> contour_points cfg dvd 360 \<and>
    length rows = length points \<and> (\<forall>ds\<in>set rows. length ds = contour_points cfg)
    \<longrightarrow> distance2mask cfg points (Distances rows) max_shape train None =
     Inr (map2 (\<lambda>p ds.
            (map (\<lambda>i. (case max_shape of None \<Rightarrow> (\<lambda>v. v) | Some shp \<Rightarrow> clamp 0 (of_int (snd shp - 1)))
                         (ds ! i * sin (of_int (int i * interval cfg) / 180 * pi) + fst p))
               [0..<contour_points cfg],
             map (\<lambda>i. (case max_shape of None \<Rightarrow> (\<lambda>v. v) | Some shp \<Rightarrow> clamp 0 (of_int (fst shp - 1)))
                         (ds ! i * cos (of_int (int i * interval cfg) / 180 * pi) + snd p))
               [0..<contour_points cfg]))
          points rows, rows))
   \<and> (\<not> use_fourier cfg \<and> contour_points cfg = 4
    \<longrightarrow> distance2mask cfg [(10, 10)] (Distances [[d, d, d, d]]) None train None =
     Inr ([([10, 10 + d, 10, 10 - d], [10 + d, 10, 10 - d, 10])], [[d, d, d, d]]))"
proof (intro conjI impI)
  assume "\<not> use_fourier cfg \<and> 0 < contour_points cfg \<and> contour_points cfg dvd 360 \<and>
    length rows = length points \<and> (\<forall>ds\<in>set rows. length ds = contour_points cfg)"
  then show "distance2mask cfg points (Distances rows) max_shape train None =
     Inr (map2 (\<lambda>p ds.
            (map (\<lambda>i. (case max_shape of None \<Rightarrow> (\<lambda>v. v) | Some shp \<Rightarrow> clamp 0 (of_int (snd shp - 1)))
                         (ds ! i * sin (of_int (int i * interval cfg) / 180 * pi) + fst p))
               [0..<contour_points cfg],
             map (\<lambda>i. (case max_shape of None \<Rightarrow> (\<lambda>v. v) | Some shp \<Rightarrow> clamp 0 (of_int (fst shp - 1)))
                         (ds ! i * cos (of_int (int i * interval cfg) / 180 * pi) + snd p))
               [0..<contour_points cfg]))
          points rows, rows)"
    using decode_plain by blast
next
  assume a: "\<not> use_fourier cfg \<and> contour_points cfg = 4"
  then have iv: "interval cfg = 90" by (simp add: interval_def)
  have "distance2mask cfg [(10, 10)] (Distances [[d, d, d, d]]) None train None =
     Inr (map2 (\<lambda>p ds.
            (map (\<lambda>i. (ds ! i * sin (of_int (int i * interval cfg) / 180 * pi) + fst p)) [0..<contour_points cfg],
             map (\<lambda>i. (ds ! i * cos (of_int (int i * interval cfg) / 180 * pi) + snd p)) [0..<contour_points cfg]))
          [(10, 10)] [[d, d, d, d]], [[d, d, d, d]])"
    using decode_plain [of cfg "[[d, d, d, d]]" "[(10, 10)]" None train] a by simp
  then show "distance2mask cfg [(10, 10)] (Distances [[d, d, d, d]]) None train None =
     Inr ([([10, 10 + d, 10, 10 - d], [10 + d, 10, 10 - d, 10])], [[d, d, d, d]])"
    using a by (simp add: iv upt_4 quarter_turns)
qed

theorem distance2mask_polygon_witness:
  "distance2mask cfg4 [(10, 10)] (Distances [[2, 2, 2, 2]]) None False None
     = Inr ([([10, 12, 10, 8], [12, 10, 8, 10])], [[2, 2, 2, 2]])
   \<and> distance2mask cfg4 [(1, 1)] (Distances [[2, 2, 2, 2]]) (Some (3, 3)) False None
     = Inr ([([1, 2, 1, 0], [2, 1, 0, 1])], [[2, 2, 2, 2]])"
proof -
  have iv: "interval cfg4 = 90" and cp: "contour_points cfg4 = 4"
    by (simp_all add: interval_def cfg4_def)
  have h1: "\<not> use_fourier cfg4 \<and> contour_points cfg4 = 4"
    by (simp add: cfg4_def)
  have h2: "\<not> use_fourier cfg4 \<and> 0 < contour_points cfg4 \<and> contour_points cfg4 dvd 360 \<and>
    length [[2, 2, 2, 2 :: real]] = length [(1, 1) :: real \<times> real] \<and>
    (\<forall>ds\<in>set [[2, 2, 2, 2 :: real]]. length ds = contour_points cfg4)"
    by (simp add: cfg4_def)
  have "distance2mask cfg4 [(10, 10)] (Distances [[2, 2, 2, 2]]) None False None
     = Inr ([([10, 10 + 2, 10, 10 - 2], [10 + 2, 10, 10 - 2, 10])], [[2, 2, 2, 2]])"
    using distance2mask_polygon [of cfg4 "[]" "[]" None False 2] h1 by blast
  then have a: "distance2mask cfg4 [(10, 10)] (Distances [[2, 2, 2, 2]]) None False None
     = Inr ([([10, 12, 10, 8], [12, 10, 8, 10])], [[2, 2, 2, 2]])"
    by simp
  have "distance2mask cfg4 [(1, 1)] (Distances [[2, 2, 2, 2]]) (Some (3, 3)) False None
     = Inr (map2 (\<lambda>p ds.
            (map (\<lambda>i. clamp 0 (of_int (snd (3 :: int, 3 :: int) - 1))
                         (ds ! i * sin (of_int (int i * interval cfg4) / 180 * pi) + fst p))
               [0..<contour_points cfg4],
             map (\<lambda>i. clamp 0 (of_int (fst (3 :: int, 3 :: int) - 1))
                         (ds ! i * cos (of_int (int i * interval cfg4) / 180 * pi) + snd p))
               [0..<contour_points cfg4]))
          [(1, 1)] [[2, 2, 2, 2]], [[2, 2, 2, 2]])"
    using distance2mask_polygon [of cfg4 "[[2, 2, 2, 2]]" "[(1, 1)]" "Some (3, 3)" False 2] h2
    by (simp only: option.case) blast
  then have b: "distance2mask cfg4 [(1, 1)] (Distances [[2, 2, 2, 2]]) (Some (3, 3)) False None
     = Inr ([([1, 2, 1, 0], [2, 1, 0, 1])], [[2, 2, 2, 2]])"
    by (simp add: iv cp upt_4 quarter_turns clamp_def)
  from a b show ?thesis by blast
qed

section \<open>Properties of the polar sampler\<close>

lemma set_zip_maps: "set (zip (map f zs) (map g zs)) = (\<lambda>z. (f z, g z)) ` set zs"
  by (simp add: zip_map_same)

lemma zip_fst_snd: "zip (map fst ps) (map snd ps) = ps"
  by (induction ps) auto

lemma sorted_contour_set:
  "set (sort_key fst (zip (map (point_angle c_x c_y) ct) (map (point_dist c_x c_y) ct)))
     = (\<lambda>p. (point_angle c_x c_y p, point_dist c_x c_y p)) ` set ct"
  by (simp add: set_zip_maps)

lemma angle_mem:
  assumes "sp = sort_key fst (zip (map (point_angle c_x c_y) ct) (map (point_dist c_x c_y) ct))"
  shows "a \<in> set (map fst sp) \<longleftrightarrow> (\<exists>p\<in>set ct. point_angle c_x c_y p = a)"
proof -
  have "set (map fst sp) = fst ` set sp" by simp
  also have "\<dots> = point_angle c_x c_y ` set ct"
    unfolding assms sorted_contour_set by (simp add: image_image)
  finally show ?thesis by auto
qed

lemma masked_max_contour:
  assumes "sp = sort_key fst (zip (map (point_angle c_x c_y) ct) (map (point_dist c_x c_y) ct))"
  shows "masked_max (map fst sp) (map snd sp) a
           = Max (set (map (point_dist c_x c_y) (filter (\<lambda>p. point_angle c_x c_y p = a) ct)))"
proof -
  have "set (map snd (filter (\<lambda>(a', d). a' = a) sp)) = snd ` {q \<in> set sp. fst q = a}"
    by (auto simp: case_prod_unfold)
  also have "\<dots> = set (map (point_dist c_x c_y) (filter (\<lambda>p. point_angle c_x c_y p = a) ct))"
    unfolding assms sorted_contour_set by (auto simp: image_iff)
  finally show ?thesis
    unfolding masked_max_def zip_fst_snd by simp
qed

lemma pick_bin_find:
  "pick_bin angle dists i =
     (case find (\<lambda>a. a \<in> set angle) (map (\<lambda>off. i + off) priority_offsets) of
        None \<Rightarrow> None
      | Some a \<Rightarrow> Some (masked_max angle dists a))"
  by (simp add: pick_bin_def priority_offsets_def)

lemma first_loop_lookup:
  "first_loop angle dists bins m a =
     (if a \<in> set bins then (case pick_bin angle dists a of Some d \<Rightarrow> Some d | None \<Rightarrow> m a) else m a)"
  by (induction bins arbitrary: m) (auto split: option.splits)

lemma second_loop_step:
  "second_loop i (a # bins) (ds, nc) =
     (if \<not> (0 \<le> a div i \<and> nat (a div i) < length ds) then Inl IndexError
      else second_loop i bins
             (ds[nat (a div i) := (case nc a of Some d \<Rightarrow> d | None \<Rightarrow> eps)],
              nc(a \<mapsto> (case nc a of Some d \<Rightarrow> d | None \<Rightarrow> eps))))"
  by (cases "nc a") (simp_all add: fun_upd_idem)

lemma second_loop_ok:
  assumes "\<forall>a\<in>set bins. 0 \<le> a div i \<and> nat (a div i) < length ds"
    and "distinct (map (\<lambda>a. nat (a div i)) bins)"
  shows "\<exists>ds' nc'. second_loop i bins (ds, nc) = Inr (ds', nc') \<and> length ds' = length ds
           \<and> (\<forall>a. nc' a = (if a \<in> set bins then Some (case nc a of Some d \<Rightarrow> d | None \<Rightarrow> eps) else nc a))
           \<and> (\<forall>a\<in>set bins. ds' ! nat (a div i) = (case nc a of Some d \<Rightarrow> d | None \<Rightarrow> eps))
           \<and> (\<forall>k<length ds. k \<notin> (\<lambda>a. nat (a div i)) ` set bins \<longrightarrow> ds' ! k = ds ! k)"
  using assms
proof (induction bins arbitrary: ds nc)
  case Nil
  then show ?case by simp
next
  case (Cons a bins)
  let ?v = "case nc a of Some d \<Rightarrow> d | None \<Rightarrow> eps"
  let ?ds1 = "ds[nat (a div i) := ?v]"
  let ?nc1 = "nc(a \<mapsto> ?v)"
  have ok: "0 \<le> a div i \<and> nat (a div i) < length ds" using Cons.prems(1) by simp
  have p1: "\<forall>b\<in>set bins. 0 \<le> b div i \<and> nat (b div i) < length ?ds1"
    using Cons.prems(1) by simp
  have p2: "distinct (map (\<lambda>a. nat (a div i)) bins)" using Cons.prems(2) by simp
  have fresh: "nat (a div i) \<notin> (\<lambda>a. nat (a div i)) ` set bins" using Cons.prems(2) by simp
  from Cons.IH [OF p1 p2, of ?nc1] obtain ds' nc' where
    r: "second_loop i bins (?ds1, ?nc1) = Inr (ds', nc')"
    and l: "length ds' = length ?ds1"
    and m: "\<forall>b. nc' b = (if b \<in> set bins then Some (case ?nc1 b of Some d \<Rightarrow> d | None \<Rightarrow> eps) else ?nc1 b)"
    and v: "\<forall>b\<in>set bins. ds' ! nat (b div i) = (case ?nc1 b of Some d \<Rightarrow> d | None \<Rightarrow> eps)"
    and u: "\<forall>k<length ?ds1. k \<notin> (\<lambda>a. nat (a div i)) ` set bins \<longrightarrow> ds' ! k = ?ds1 ! k"
    by blast
  have val1: "\<And>b. (case ?nc1 b of Some d \<Rightarrow> d | None \<Rightarrow> eps) = (case nc b of Some d \<Rightarrow> d | None \<Rightarrow> eps)"
    by simp
  have "second_loop i (a # bins) (ds, nc) = Inr (ds', nc')"
    using ok r by (simp only: second_loop_step) simp
  moreover have "length ds' = length ds" using l by simp
  moreover have "\<forall>b. nc' b = (if b \<in> set (a # bins) then Some (case nc b of Some d \<Rightarrow> d | None \<Rightarrow> eps) else nc b)"
    using m val1 by auto
  moreover have "\<forall>b\<in>set (a # bins). ds' ! nat (b div i) = (case nc b of Some d \<Rightarrow> d | None \<Rightarrow> eps)"
  proof
    fix b assume b: "b \<in> set (a # bins)"
    show "ds' ! nat (b div i) = (case nc b of Some d \<Rightarrow> d | None \<Rightarrow> eps)"
    proof (cases "b \<in> set bins")
      case True
      then show ?thesis using v val1 by auto
    next
      case False
      then have ba: "b = a" using b by simp
      have "ds' ! nat (a div i) = ?ds1 ! nat (a div i)"
        using u fresh ok by simp
      then show ?thesis using ok ba by simp
    qed
  qed
  moreover have "\<forall>k<length ds. k \<notin> (\<lambda>a. nat (a div i)) ` set (a # bins) \<longrightarrow> ds' ! k = ds ! k"
    using u by auto
  ultimately show ?case by blast
qed

lemma py_range_bins:
  assumes "0 < n" and "n dvd 360"
  shows "py_range 0 360 (360 div int n) = Inr (map (\<lambda>k. int k * (360 div int n)) [0..<n])"
proof -
  let ?i = "360 div int n"
  note ic = interval_count [OF assms]
  have e: "360 + ?i - 1 = int n * ?i + (?i - 1)" using ic(3) by simp
  have "(360 + ?i - 1) div ?i = (int n * ?i + (?i - 1)) div ?i"
    by (simp only: e)
  also have "\<dots> = int n + (?i - 1) div ?i" using ic(1) by simp
  also have "(?i - 1) div ?i = 0" using ic(1) by (simp add: div_pos_pos_trivial)
  finally have "nat ((360 - 0 + ?i - 1) div ?i) = n" by simp
  then show ?thesis using ic(1) by (simp add: py_range_def)
qed

lemma spec_bin_value_pick:
  assumes "sp = sort_key fst (zip (map (point_angle c_x c_y) ct) (map (point_dist c_x c_y) ct))"
  shows "(case pick_bin (map fst sp) (map snd sp) a of Some d \<Rightarrow> d | None \<Rightarrow> eps)
           = spec_bin_value c_x c_y ct a"
proof -
  have p: "(\<lambda>a. a \<in> set (map fst sp)) = (\<lambda>a. \<exists>p\<in>set ct. point_angle c_x c_y p = a)"
    using angle_mem [OF assms] by auto
  show ?thesis
    unfolding pick_bin_find spec_bin_value_def p
    by (simp add: masked_max_contour [OF assms] split: option.splits)
qed

lemma get_polar_coordinates_result:
  assumes "0 < n" and "n dvd 360"
  shows "\<exists>ds nc. get_polar_coordinates c_x c_y ct n = Inr (ds, nc) \<and> length ds = n \<and>
           (\<forall>k<n. ds ! k = spec_bin_value c_x c_y ct (int k * (360 div int n))) \<and>
           (\<forall>k<n. nc (int k * (360 div int n)) = Some (ds ! k))"
proof -
  let ?i = "360 div int n"
  let ?sp = "sort_key fst (zip (map (point_angle c_x c_y) ct) (map (point_dist c_x c_y) ct))"
  let ?bins = "map (\<lambda>k. int k * ?i) [0..<n]"
  let ?nc0 = "first_loop (map fst ?sp) (map snd ?sp) ?bins Map.empty"
  note ic = interval_count [OF assms]
  have idx: "\<And>k. nat (int k * ?i div ?i) = k" using ic(1) by simp
  have g: "get_polar_coordinates c_x c_y ct n = second_loop ?i ?bins (replicate n 0, ?nc0)"
    unfolding get_polar_coordinates_def Let_def py_range_bins [OF assms]
    using assms(1) by simp
  have p1: "\<forall>a\<in>set ?bins. 0 \<le> a div ?i \<and> nat (a div ?i) < length (replicate n (0::real))"
    using ic(1) by auto
  have "map (\<lambda>a. nat (a div ?i)) ?bins = [0..<n]"
    using ic(1) by (simp add: comp_def map_idI)
  then have p2: "distinct (map (\<lambda>a. nat (a div ?i)) ?bins)"
    by simp
  from second_loop_ok [OF p1 p2, of ?nc0] obtain ds nc where
    r: "second_loop ?i ?bins (replicate n 0, ?nc0) = Inr (ds, nc)"
    and l: "length ds = length (replicate n (0::real))"
    and m: "\<forall>a. nc a = (if a \<in> set ?bins then Some (case ?nc0 a of Some d \<Rightarrow> d | None \<Rightarrow> eps) else ?nc0 a)"
    and v: "\<forall>a\<in>set ?bins. ds ! nat (a div ?i) = (case ?nc0 a of Some d \<Rightarrow> d | None \<Rightarrow> eps)"
    by blast
  have val0: "\<And>k. k < n \<Longrightarrow> (case ?nc0 (int k * ?i) of Some d \<Rightarrow> d | None \<Rightarrow> eps)
                  = spec_bin_value c_x c_y ct (int k * ?i)"
  proof -
    fix k assume k: "k < n"
    then have mem: "int k * ?i \<in> set ?bins" by auto
    have "?nc0 (int k * ?i) = pick_bin (map fst ?sp) (map snd ?sp) (int k * ?i)"
      unfolding first_loop_lookup using mem by (simp split: option.splits)
    then show "(case ?nc0 (int k * ?i) of Some d \<Rightarrow> d | None \<Rightarrow> eps)
                  = spec_bin_value c_x c_y ct (int k * ?i)"
      using spec_bin_value_pick [OF refl, of c_x c_y ct "int k * ?i"] by simp
  qed
  have a: "\<forall>k<n. ds ! k = spec_bin_value c_x c_y ct (int k * ?i)"
  proof (intro allI impI)
    fix k assume k: "k < n"
    then have mem: "int k * ?i \<in> set ?bins" by auto
    from v mem have "ds ! nat (int k * ?i div ?i) = (case ?nc0 (int k * ?i) of Some d \<Rightarrow> d | None \<Rightarrow> eps)"
      by blast
    then show "ds ! k = spec_bin_value c_x c_y ct (int k * ?i)"
      using val0 [OF k] idx by simp
  qed
  have b: "\<forall>k<n. nc (int k * ?i) = Some (ds ! k)"
  proof (intro allI impI)
    fix k assume k: "k < n"
    then have mem: "int k * ?i \<in> set ?bins" by auto
    from m mem have "nc (int k * ?i) = Some (case ?nc0 (int k * ?i) of Some d \<Rightarrow> d | None \<Rightarrow> eps)"
      by simp
    then show "nc (int k * ?i) = Some (ds ! k)"
      using val0 [OF k] a k by simp
  qed
  from g r l a b show ?thesis by simp
qed

lemma second_loop_in_range:
  "second_loop i bins (ds, nc) = Inr r \<Longrightarrow> \<forall>a\<in>set bins. nat (a div i) < length ds"
proof (induction bins arbitrary: ds nc)
  case Nil
  then show ?case by simp
next
  case (Cons a bins)
  from Cons.prems have ok: "0 \<le> a div i \<and> nat (a div i) < length ds"
    unfolding second_loop_step by (simp split: if_splits)
  with Cons.prems have
    "second_loop i bins (ds[nat (a div i) := (case nc a of Some d \<Rightarrow> d | None \<Rightarrow> eps)],
        nc(a \<mapsto> (case nc a of Some d \<Rightarrow> d | None \<Rightarrow> eps))) = Inr r"
    unfolding second_loop_step by simp
  from Cons.IH [OF this] ok show ?case by simp
qed

lemma get_polar_coordinates_returns:
  assumes "get_polar_coordinates c_x c_y ct n = Inr r"
  shows "0 < n \<and> n dvd 360"
proof -
  let ?i = "360 div int n"
  have n0: "0 < n" using assms by (cases "n = 0") (simp_all add: get_polar_coordinates_def Let_def)
  have i0: "?i \<noteq> 0"
    using assms n0 by (cases "?i = 0") (simp_all add: get_polar_coordinates_def Let_def py_range_def)
  have "0 \<le> ?i" using n0 by (simp add: pos_imp_zdiv_nonneg_iff)
  with i0 have ipos: "0 < ?i" by simp
  let ?c = "nat ((360 - 0 + ?i - 1) div ?i)"
  let ?bins = "map (\<lambda>k. 0 + int k * ?i) [0..<?c]"
  obtain nc0 where "second_loop ?i ?bins (replicate n 0, nc0) = Inr r"
    using assms n0 ipos by (simp add: get_polar_coordinates_def Let_def py_range_def)
  from second_loop_in_range [OF this]
  have b: "\<forall>k<?c. nat ((0 + int k * ?i) div ?i) < n" by simp
  have cn: "?c \<le> n"
  proof (rule ccontr)
    assume "\<not> ?c \<le> n"
    then have "n < ?c" by simp
    with b have "nat ((0 + int n * ?i) div ?i) < n" by blast
    then show False using ipos by simp
  qed
  then have le: "(359 + ?i) div ?i \<le> int n" by simp
  have "(359 + ?i) mod ?i < ?i" using ipos by simp
  moreover have "?i * ((359 + ?i) div ?i) \<le> ?i * int n"
    using le ipos by (simp add: mult_left_mono)
  moreover have "359 + ?i = ?i * ((359 + ?i) div ?i) + (359 + ?i) mod ?i"
    by (rule mult_div_mod_eq [symmetric])
  ultimately have "359 + ?i < ?i * int n + ?i" by linarith
  then have ge: "360 \<le> int n * ?i" by (simp add: algebra_simps)
  have "(360::int) = int n * ?i + 360 mod int n"
    by (rule mult_div_mod_eq [symmetric])
  moreover have "0 \<le> (360::int) mod int n" using n0 by simp
  ultimately have "int n * ?i \<le> 360" by linarith
  with ge have "int n * ?i = 360" by simp
  then have "int n dvd 360" by (metis dvd_triv_left)
  then have "n dvd 360" by (metis int_dvd_int_iff of_nat_numeral)
  with n0 show ?thesis by simp
qed

lemma spec_bin_value_cases:
  "spec_bin_value c_x c_y ct a = eps \<or> (\<exists>p\<in>set ct. spec_bin_value c_x c_y ct a = point_dist c_x c_y p)"
proof (cases "find (\<lambda>a. \<exists>p\<in>set ct. point_angle c_x c_y p = a) (map (\<lambda>off. a + off) priority_offsets)")
  case None
  then show ?thesis by (simp add: spec_bin_value_def)
next
  case (Some b)
  then have "\<exists>p\<in>set ct. point_angle c_x c_y p = b"
    by (auto simp: find_Some_iff)
  then have ne: "set (map (point_dist c_x c_y) (filter (\<lambda>p. point_angle c_x c_y p = b) ct)) \<noteq> {}"
    by (auto simp: filter_empty_conv)
  have "finite (set (map (point_dist c_x c_y) (filter (\<lambda>p. point_angle c_x c_y p = b) ct)))" by simp
  from Max_in [OF this ne]
  have "Max (set (map (point_dist c_x c_y) (filter (\<lambda>p. point_angle c_x c_y p = b) ct)))
          \<in> set (map (point_dist c_x c_y) (filter (\<lambda>p. point_angle c_x c_y p = b) ct))" .
  then show ?thesis using Some by (auto simp: spec_bin_value_def)
qed

lemma point_dist_nonneg: "0 \<le> point_dist c_x c_y p"
  by (simp add: point_dist_def Let_def)

text \<open>
  Claim C3.  For a bin count \<open>n > 0\<close> that divides 360, \<^verbatim>\<open>get_polar_coordinates\<close> returns
  \<open>n\<close> distances, and the bin \<open>k\<close>, whose angle is \<open>k * (360 div n)\<close>, holds the largest
  distance among the contour points whose integer angle is the first of exact, +1, -1, +2,
  -2, +3, -3 degrees that any contour point has, and the epsilon \<open>1e-6\<close> when none of these
  angles occurs.
\<close>

theorem get_polar_coordinates_priority:
  assumes "0 < n" and "n dvd 360"
  shows "\<exists>ds nc. get_polar_coordinates c_x c_y ct n = Inr (ds, nc) \<and> length ds = n \<and>
           (\<forall>k<n. ds ! k = spec_bin_value c_x c_y ct (int k * (360 div int n)))"
  using get_polar_coordinates_result [OF assms, of c_x c_y ct] by blast

theorem get_polar_coordinates_priority_witness:
  "\<exists>ds nc. get_polar_coordinates 0 0 [(1, 1), (0, 5)] 180 = Inr (ds, nc) \<and> length ds = 180 \<and>
     ds ! 0 = 5 \<and> ds ! 1 = 5 \<and> ds ! 2 = eps \<and>
     ds ! 21 = sqrt 2 \<and> ds ! 22 = sqrt 2 \<and> ds ! 23 = sqrt 2 \<and> ds ! 24 = sqrt 2 \<and> ds ! 25 = eps"
proof -
  let ?ct = "[(1, 1), (0, 5)] :: (real \<times> real) list"
  have a: "point_angle 0 0 (1, 1) = 45" "point_angle 0 0 (0, 5) = 0"
    by (simp_all add: point_angle_def atan2_def trunc_int_def Let_def arctan_one)
  have d: "point_dist 0 0 (1, 1) = sqrt 2" "point_dist 0 0 (0, 5) = 5"
    by (simp_all add: point_dist_def Let_def)
  have s: "spec_bin_value 0 0 ?ct 0 = 5" "spec_bin_value 0 0 ?ct 2 = 5" "spec_bin_value 0 0 ?ct 4 = eps"
          "spec_bin_value 0 0 ?ct 42 = sqrt 2" "spec_bin_value 0 0 ?ct 44 = sqrt 2"
          "spec_bin_value 0 0 ?ct 46 = sqrt 2" "spec_bin_value 0 0 ?ct 48 = sqrt 2"
          "spec_bin_value 0 0 ?ct 50 = eps"
    by (simp_all add: spec_bin_value_def priority_offsets_def a d)
  from get_polar_coordinates_priority [of 180 0 0 ?ct]
  obtain ds nc where r: "get_polar_coordinates 0 0 ?ct 180 = Inr (ds, nc)"
    and l: "length ds = 180"
    and v: "\<forall>k<180. ds ! k = spec_bin_value 0 0 ?ct (int k * (360 div int 180))"
    by auto
  have "ds ! 0 = 5" "ds ! 1 = 5" "ds ! 2 = eps"
     "ds ! 21 = sqrt 2" "ds ! 22 = sqrt 2" "ds ! 23 = sqrt 2" "ds ! 24 = sqrt 2" "ds ! 25 = eps"
    using v [rule_format, of 0] v [rule_format, of 1] v [rule_format, of 2]
      v [rule_format, of 21] v [rule_format, of 22] v [rule_format, of 23]
      v [rule_format, of 24] v [rule_format, of 25] s
    by simp_all
  with r l show ?thesis by blast
qed

text \<open>The order of the fallback on integer angles: +1 before -1, then +2, -2, +3, -3.\<close>

lemma pick_bin_priority_example:
  "pick_bin [89, 91, 92] [6, 7, 8] 90 = Some 7"
  "pick_bin [88, 89, 92] [5, 6, 8] 90 = Some 6"
  "pick_bin [87, 92, 92] [4, 8, 9] 90 = Some 9"
  "pick_bin [86, 94] [4, 8] 90 = None"
  by (simp_all add: pick_bin_def masked_max_def)

text \<open>
  Claim C4.  Every entry of a signal returned by \<^verbatim>\<open>get_polar_coordinates\<close> is either the
  epsilon \<open>1e-6\<close> or the distance of a contour point from the centre.  So every entry is
  non-negative, and it is at least the epsilon when no contour point is nearer than the
  epsilon to the centre.
\<close>

theorem get_polar_coordinates_entries:
  assumes "map_sum id fst (get_polar_coordinates c_x c_y ct n) = Inr ds" and "d \<in> set ds"
  shows "(d = eps \<or> (\<exists>p\<in>set ct. d = point_dist c_x c_y p))
       \<and> 0 \<le> d
       \<and> ((\<forall>p\<in>set ct. eps \<le> point_dist c_x c_y p) \<longrightarrow> eps \<le> d)"
proof -
  from assms(1) obtain nc where g: "get_polar_coordinates c_x c_y ct n = Inr (ds, nc)"
    by (cases "get_polar_coordinates c_x c_y ct n") auto
  from get_polar_coordinates_returns [OF g] have n: "0 < n" "n dvd 360" by simp_all
  from get_polar_coordinates_result [OF n, of c_x c_y ct] g
  have l: "length ds = n"
    and v: "\<forall>k<n. ds ! k = spec_bin_value c_x c_y ct (int k * (360 div int n))"
    by auto
  from assms(2) obtain k where k: "k < length ds" "ds ! k = d"
    by (auto simp: in_set_conv_nth)
  with l v have "d = spec_bin_value c_x c_y ct (int k * (360 div int n))" by auto
  with spec_bin_value_cases [of c_x c_y ct "int k * (360 div int n)"]
  have c: "d = eps \<or> (\<exists>p\<in>set ct. d = point_dist c_x c_y p)" by auto
  have e: "0 \<le> eps" by (simp add: eps_def)
  from c e have "0 \<le> d" using point_dist_nonneg by auto
  moreover from c have "(\<forall>p\<in>set ct. eps \<le> point_dist c_x c_y p) \<longrightarrow> eps \<le> d" by auto
  ultimately show ?thesis using c by blast
qed

lemma list4: "length ds = 4 \<Longrightarrow> ds = [ds ! 0, ds ! 1, ds ! 2, ds ! 3]"
  by (cases ds; cases "tl ds"; cases "tl (tl ds)"; cases "tl (tl (tl ds))") auto

lemma signal_axes:
  "map_sum id fst (get_polar_coordinates 0 0 [(0, 1), (0, 2), (3, 0)] 4) = Inr [2, 3, eps, eps]"
proof -
  have a: "point_angle 0 0 (0, 1) = 0" "point_angle 0 0 (0, 2) = 0" "point_angle 0 0 (3, 0) = 90"
    by (simp_all add: point_angle_def atan2_def trunc_int_def Let_def)
  have d: "point_dist 0 0 (0, 1) = 1" "point_dist 0 0 (0, 2) = 2" "point_dist 0 0 (3, 0) = 3"
    by (simp_all add: point_dist_def Let_def)
  have s: "spec_bin_value 0 0 [(0, 1), (0, 2), (3, 0)] 0 = 2"
          "spec_bin_value 0 0 [(0, 1), (0, 2), (3, 0)] 90 = 3"
          "spec_bin_value 0 0 [(0, 1), (0, 2), (3, 0)] 180 = eps"
          "spec_bin_value 0 0 [(0, 1), (0, 2), (3, 0)] 270 = eps"
    by (simp_all add: spec_bin_value_def priority_offsets_def a d)
  from get_polar_coordinates_result [of 4 0 0 "[(0, 1), (0, 2), (3, 0)]"]
  obtain ds nc where r: "get_polar_coordinates 0 0 [(0, 1), (0, 2), (3, 0)] 4 = Inr (ds, nc)"
    and l: "length ds = 4"
    and v: "\<forall>k<4. ds ! k = spec_bin_value 0 0 [(0, 1), (0, 2), (3, 0)] (int k * (360 div int 4))"
    by auto
  have "ds ! 0 = 2" "ds ! 1 = 3" "ds ! 2 = eps" "ds ! 3 = eps"
    using v [rule_format, of 0] v [rule_format, of 1] v [rule_format, of 2] v [rule_format, of 3] s
    by simp_all
  with list4 [OF l] have "ds = [2, 3, eps, eps]" by simp
  with r show ?thesis by simp
qed

lemma signal_through_center:
  "map_sum id fst (get_polar_coordinates 0 0 [(0, 0), (2, 0), (0, - 2), (- 2, 0)] 4) = Inr [0, 2, 2, 2]"
proof -
  let ?ct = "[(0, 0), (2, 0), (0, - 2), (- 2, 0)] :: (real \<times> real) list"
  have a: "point_angle 0 0 (0, 0) = 0" "point_angle 0 0 (2, 0) = 90"
          "point_angle 0 0 (0, - 2) = 180" "point_angle 0 0 (- 2, 0) = 270"
    by (simp_all add: point_angle_def atan2_def trunc_int_def Let_def)
  have d: "point_dist 0 0 (0, 0) = 0" "point_dist 0 0 (2, 0) = 2"
          "point_dist 0 0 (0, - 2) = 2" "point_dist 0 0 (- 2, 0) = 2"
    by (simp_all add: point_dist_def Let_def)
  have s: "spec_bin_value 0 0 ?ct 0 = 0" "spec_bin_value 0 0 ?ct 90 = 2"
          "spec_bin_value 0 0 ?ct 180 = 2" "spec_bin_value 0 0 ?ct 270 = 2"
    by (simp_all add: spec_bin_value_def priority_offsets_def a d)
  from get_polar_coordinates_result [of 4 0 0 ?ct]
  obtain ds nc where r: "get_polar_coordinates 0 0 ?ct 4 = Inr (ds, nc)"
    and l: "length ds = 4"
    and v: "\<forall>k<4. ds ! k = spec_bin_value 0 0 ?ct (int k * (360 div int 4))"
    by auto
  have "ds ! 0 = 0" "ds ! 1 = 2" "ds ! 2 = 2" "ds ! 3 = 2"
    using v [rule_format, of 0] v [rule_format, of 1] v [rule_format, of 2] v [rule_format, of 3] s
    by simp_all
  with list4 [OF l] have "ds = [0, 2, 2, 2]" by simp
  with r show ?thesis by simp
qed

text \<open>
  An entry can be exactly zero: for a contour through the centre whose only point at
  angle 0 is the centre itself, the bin of angle 0 is 0, below the epsilon.
\<close>

theorem get_polar_coordinates_zero_entry:
  "map_sum id fst (get_polar_coordinates 0 0 [(0, 0), (2, 0), (0, - 2), (- 2, 0)] 4) = Inr [0, 2, 2, 2]
   \<and> \<not> eps \<le> [0, 2, 2, 2] ! 0"
  using signal_through_center by (simp add: eps_def)

theorem get_polar_coordinates_entries_witness:
  "map_sum id fst (get_polar_coordinates 0 0 [(0, 1), (0, 2), (3, 0)] 4) = Inr [2, 3, eps, eps]
   \<and> eps \<le> 2 \<and> eps \<le> 3"
proof -
  have d: "point_dist 0 0 (0, 1) = 1" "point_dist 0 0 (0, 2) = 2" "point_dist 0 0 (3, 0) = 3"
    by (simp_all add: point_dist_def Let_def)
  have far: "\<forall>p\<in>set [(0, 1), (0, 2), (3, 0)]. eps \<le> point_dist 0 0 p"
    by (simp add: d eps_def)
  have "eps \<le> 2"
    using get_polar_coordinates_entries [OF signal_axes, of 2] far by simp
  moreover have "eps \<le> 3"
    using get_polar_coordinates_entries [OF signal_axes, of 3] far by simp
  ultimately show ?thesis using signal_axes by simp
qed

section \<open>Properties of the target assigner\<close>

lemma min_with_index_first:
  "xs \<noteq> [] \<Longrightarrow>
     fst (min_with_index xs) = Min (set xs) \<and> snd (min_with_index xs) < length xs \<and>
     xs ! snd (min_with_index xs) = Min (set xs) \<and>
     (\<forall>j<snd (min_with_index xs). Min (set xs) < xs ! j)"
proof (induction xs rule: min_with_index.induct)
  case 1
  then show ?case by simp
next
  case (2 x)
  then show ?case by simp
next
  case (3 x y ys)
  let ?xs = "y # ys"
  obtain m i where mi: "min_with_index ?xs = (m, i)" by (cases "min_with_index ?xs")
  from 3 mi have ih: "m = Min (set ?xs)" "i < length ?xs" "?xs ! i = m" "\<forall>j<i. m < ?xs ! j"
    by auto
  have M: "Min (set (x # ?xs)) = min x m"
    using ih(1) by simp
  show ?case
  proof (cases "x \<le> m")
    case True
    then have "min_with_index (x # ?xs) = (x, 0)" using mi by simp
    then show ?thesis using True M by (simp add: min_def)
  next
    case False
    then have r: "min_with_index (x # ?xs) = (m, Suc i)" using mi by simp
    have Mm: "Min (set (x # ?xs)) = m" using False M by (simp add: min_def)
    have "\<forall>j<Suc i. m < (x # ?xs) ! j"
    proof (intro allI impI)
      fix j assume "j < Suc i"
      then show "m < (x # ?xs) ! j"
        using False ih(4) by (cases j) auto
    qed
    then show ?thesis
      unfolding r Mm using ih by simp
  qed
qed

lemma expand_rows_same: "length xs = n \<Longrightarrow> expand_rows n xs = Inr xs"
  by (simp add: expand_rows_def)

lemma mask_loop_lengths:
  "mask_loop cfg points gt_masks gmc inds pos (mt, ct) = Inr (mt', ct')
     \<Longrightarrow> length mt' = length mt \<and> length ct' = length ct"
proof (induction pos arbitrary: mt ct)
  case Nil
  then show ?case by simp
next
  case (Cons p pos)
  then show ?case
    by (auto simp: Let_def split: if_splits sum.splits prod.splits)
qed

text \<open>What a regular return of the label stage looks like.\<close>

lemma polar_target_single_labels:
  assumes ret: "polar_target_single cfg gt_bboxes gt_masks gt_labels mask_centers gt_max_centerness
                  points regress_ranges = Inr (Targets4 labels bbox_targets mask_targets centerness_target)"
    and lr: "length regress_ranges = length points"
    and lm: "length mask_centers = length gt_labels"
  shows "\<exists>inside. inside_gt_bbox_mask cfg gt_bboxes mask_centers points = Inr inside
           \<and> length gt_bboxes = length gt_labels \<and> gt_labels \<noteq> []
           \<and> labels = map (\<lambda>p. if fst (min_with_index (masked_areas (points ! p) (regress_ranges ! p) gt_bboxes (inside ! p))) = INF_val
                                 then 0
                                 else gt_labels ! snd (min_with_index (masked_areas (points ! p) (regress_ranges ! p) gt_bboxes (inside ! p))))
                         [0..<length points]"
proof -
  have ne: "gt_labels \<noteq> []"
    using ret by (auto simp: polar_target_single_def Let_def)
  have lb: "length gt_bboxes = length gt_labels"
  proof (rule ccontr)
    assume "length gt_bboxes \<noteq> length gt_labels"
    then show False
      using ret ne unfolding polar_target_single_def Let_def
      by (auto split: sum.splits if_splits)
  qed
  note e = expand_rows_same [OF lr] expand_rows_same [OF lb] expand_rows_same [OF lm]
  obtain inside where ins: "inside_gt_bbox_mask cfg gt_bboxes mask_centers points = Inr inside"
    using ret ne lb unfolding polar_target_single_def Let_def e
    by (cases "inside_gt_bbox_mask cfg gt_bboxes mask_centers points") auto
  let ?areas = "map (\<lambda>p. masked_areas (points ! p) (regress_ranges ! p) gt_bboxes (inside ! p)) [0..<length points]"
  let ?L = "map (\<lambda>p. if map (\<lambda>row. fst (min_with_index row)) ?areas ! p = INF_val then 0
                       else gt_labels ! (map (\<lambda>row. snd (min_with_index row)) ?areas ! p))
              [0..<length points]"
  have "labels = ?L"
    using ret ne lb
    by (simp add: polar_target_single_def Let_def e ins split: sum.splits prod.splits)
  also have "?L = map (\<lambda>p. if fst (min_with_index (masked_areas (points ! p) (regress_ranges ! p) gt_bboxes (inside ! p))) = INF_val
                                 then 0
                                 else gt_labels ! snd (min_with_index (masked_areas (points ! p) (regress_ranges ! p) gt_bboxes (inside ! p))))
                         [0..<length points]"
    by (rule map_cong) simp_all
  finally have "labels = map (\<lambda>p. if fst (min_with_index (masked_areas (points ! p) (regress_ranges ! p) gt_bboxes (inside ! p))) = INF_val
                                 then 0
                                 else gt_labels ! snd (min_with_index (masked_areas (points ! p) (regress_ranges ! p) gt_bboxes (inside ! p))))
                         [0..<length points]" .
  with ins lb ne show ?thesis by blast
qed

lemma masked_areas_nth:
  "length (masked_areas pt rr bbs row) = length bbs"
  "g < length bbs \<Longrightarrow> masked_areas pt rr bbs row ! g =
     (if row ! g \<and> inside_regress_range pt rr (bbs ! g) then bbox_area (bbs ! g) else INF_val)"
  by (simp_all add: masked_areas_def Let_def)

lemma label_background:
  assumes "bbs \<noteq> []" and "\<forall>g<length bbs. \<not> (row ! g \<and> inside_regress_range pt rr (bbs ! g))"
  shows "fst (min_with_index (masked_areas pt rr bbs row)) = INF_val"
proof -
  let ?xs = "masked_areas pt rr bbs row"
  have ne: "?xs \<noteq> []" using assms(1) masked_areas_nth(1) [of pt rr bbs row] by auto
  have "\<forall>x\<in>set ?xs. x = INF_val"
    using assms(2) by (auto simp: in_set_conv_nth masked_areas_nth)
  then have "set ?xs = {INF_val}" using ne by (cases ?xs) auto
  then show ?thesis using min_with_index_first [OF ne] by simp
qed

lemma label_winner:
  assumes g: "g < length bbs" "row ! g" "inside_regress_range pt rr (bbs ! g)"
    and fin: "bbox_area (bbs ! g) < INF_val"
    and best: "\<forall>g'<length bbs. row ! g' \<and> inside_regress_range pt rr (bbs ! g')
                 \<longrightarrow> bbox_area (bbs ! g) \<le> bbox_area (bbs ! g')
                     \<and> (g' < g \<longrightarrow> bbox_area (bbs ! g) < bbox_area (bbs ! g'))"
  shows "fst (min_with_index (masked_areas pt rr bbs row)) = bbox_area (bbs ! g)"
    and "snd (min_with_index (masked_areas pt rr bbs row)) = g"
proof -
  let ?xs = "masked_areas pt rr bbs row"
  let ?a = "bbox_area (bbs ! g)"
  have len: "length ?xs = length bbs" by (rule masked_areas_nth(1))
  have ne: "?xs \<noteq> []" using g(1) len by auto
  have xg: "?xs ! g = ?a" using g by (simp add: masked_areas_nth)
  have lower: "\<forall>j<length bbs. ?a \<le> ?xs ! j"
    using best fin by (auto simp: masked_areas_nth)
  have "?a \<in> set ?xs" using xg g(1) len by (metis nth_mem)
  moreover have "\<forall>x\<in>set ?xs. ?a \<le> x"
    using lower len by (auto simp: in_set_conv_nth)
  ultimately have M: "Min (set ?xs) = ?a"
    by (intro Min_eqI) simp_all
  note f = min_with_index_first [OF ne]
  show "fst (min_with_index ?xs) = ?a" using f M by simp
  let ?i = "snd (min_with_index ?xs)"
  have i: "?i < length bbs" "?xs ! ?i = ?a" "\<forall>j<?i. ?a < ?xs ! j"
    using f M len by simp_all
  have "\<not> g < ?i" using i(3) xg by auto
  moreover have "\<not> ?i < g"
  proof
    assume lt: "?i < g"
    have pass: "row ! ?i \<and> inside_regress_range pt rr (bbs ! ?i)"
    proof (rule ccontr)
      assume "\<not> (row ! ?i \<and> inside_regress_range pt rr (bbs ! ?i))"
      then have "?xs ! ?i = INF_val" using i(1) by (auto simp: masked_areas_nth)
      with i(2) fin show False by simp
    qed
    then have "?xs ! ?i = bbox_area (bbs ! ?i)" using i(1) by (simp add: masked_areas_nth)
    moreover from best i(1) pass lt have "?a < bbox_area (bbs ! ?i)" by blast
    ultimately show False using i(2) by simp
  qed
  ultimately show "?i = g" by simp
qed

text \<open>
  Center sampling at work: the box \<open>(0, 0, 20, 20)\<close> with center \<open>(10, 10)\<close> shrinks to
  half-width \<open>4 * 1.5\<close> for the two points of the first level and to \<open>8 * 1.5\<close> for the
  point of the second level, so the point \<open>(18, 10)\<close> is outside at the first level and
  inside at the second.
\<close>

lemma center_sampling_example:
  "inside_gt_bbox_mask cfg_cs [(0, 0, 20, 20)] [(10, 10)] [(10, 10), (18, 10), (18, 10)]
     = Inr [[True], [False], [True]]"
  by (simp add: inside_gt_bbox_mask_def cfg_cs_def get_mask_sample_region_def Let_def shrunk_box_def
      edge_distances_def min4_def upt_rec numeral_eq_Suc)

text \<open>
  Claim C5.  Let \<^verbatim>\<open>polar_target_single\<close> return its 4-tuple, with one regression range per
  point and one mask center per instance.  A point at which no instance passes both tests
  gets the label 0.  A point at which instances pass gets the label of the passing instance
  of smallest box area, the earliest one among equal areas, provided that area is below
  \<^verbatim>\<open>INF = 1e8\<close>, the value the source writes over the areas of the instances that fail.
\<close>

theorem polar_target_single_min_area:
  assumes ret: "polar_target_single cfg gt_bboxes gt_masks gt_labels mask_centers gt_max_centerness
                  points regress_ranges = Inr (Targets4 labels bbox_targets mask_targets centerness_target)"
    and lr: "length regress_ranges = length points"
    and lm: "length mask_centers = length gt_labels"
    and ins: "inside_gt_bbox_mask cfg gt_bboxes mask_centers points = Inr inside"
    and p: "p < length points"
  shows "((\<forall>g. \<not> passes inside points regress_ranges gt_bboxes p g) \<longrightarrow> labels ! p = 0)
       \<and> (\<forall>g. passes inside points regress_ranges gt_bboxes p g
              \<and> bbox_area (gt_bboxes ! g) < INF_val
              \<and> (\<forall>g'. passes inside points regress_ranges gt_bboxes p g'
                     \<longrightarrow> bbox_area (gt_bboxes ! g) \<le> bbox_area (gt_bboxes ! g')
                         \<and> (g' < g \<longrightarrow> bbox_area (gt_bboxes ! g) < bbox_area (gt_bboxes ! g')))
              \<longrightarrow> labels ! p = gt_labels ! g)"
proof -
  from polar_target_single_labels [OF ret lr lm] ins
  have lb: "length gt_bboxes = length gt_labels" and ne: "gt_labels \<noteq> []"
    and L: "labels = map (\<lambda>p. if fst (min_with_index (masked_areas (points ! p) (regress_ranges ! p) gt_bboxes (inside ! p))) = INF_val
                                 then 0
                                 else gt_labels ! snd (min_with_index (masked_areas (points ! p) (regress_ranges ! p) gt_bboxes (inside ! p))))
                         [0..<length points]"
    by auto
  let ?xs = "masked_areas (points ! p) (regress_ranges ! p) gt_bboxes (inside ! p)"
  have Lp: "labels ! p = (if fst (min_with_index ?xs) = INF_val then 0 else gt_labels ! snd (min_with_index ?xs))"
    unfolding L using p by simp
  have bne: "gt_bboxes \<noteq> []" using lb ne by auto
  have a: "(\<forall>g. \<not> passes inside points regress_ranges gt_bboxes p g) \<longrightarrow> labels ! p = 0"
  proof
    assume "\<forall>g. \<not> passes inside points regress_ranges gt_bboxes p g"
    then have "\<forall>g<length gt_bboxes. \<not> (inside ! p ! g \<and> inside_regress_range (points ! p) (regress_ranges ! p) (gt_bboxes ! g))"
      by (simp add: passes_def)
    from label_background [OF bne this] show "labels ! p = 0" unfolding Lp by simp
  qed
  have b: "\<forall>g. passes inside points regress_ranges gt_bboxes p g
              \<and> bbox_area (gt_bboxes ! g) < INF_val
              \<and> (\<forall>g'. passes inside points regress_ranges gt_bboxes p g'
                     \<longrightarrow> bbox_area (gt_bboxes ! g) \<le> bbox_area (gt_bboxes ! g')
                         \<and> (g' < g \<longrightarrow> bbox_area (gt_bboxes ! g) < bbox_area (gt_bboxes ! g')))
              \<longrightarrow> labels ! p = gt_labels ! g"
  proof (intro allI impI)
    fix g
    assume h: "passes inside points regress_ranges gt_bboxes p g
              \<and> bbox_area (gt_bboxes ! g) < INF_val
              \<and> (\<forall>g'. passes inside points regress_ranges gt_bboxes p g'
                     \<longrightarrow> bbox_area (gt_bboxes ! g) \<le> bbox_area (gt_bboxes ! g')
                         \<and> (g' < g \<longrightarrow> bbox_area (gt_bboxes ! g) < bbox_area (gt_bboxes ! g')))"
    then have g: "g < length gt_bboxes" "inside ! p ! g"
        "inside_regress_range (points ! p) (regress_ranges ! p) (gt_bboxes ! g)"
      and fin: "bbox_area (gt_bboxes ! g) < INF_val"
      by (simp_all add: passes_def)
    from h have best: "\<forall>g'<length gt_bboxes. inside ! p ! g' \<and> inside_regress_range (points ! p) (regress_ranges ! p) (gt_bboxes ! g')
                 \<longrightarrow> bbox_area (gt_bboxes ! g) \<le> bbox_area (gt_bboxes ! g')
                     \<and> (g' < g \<longrightarrow> bbox_area (gt_bboxes ! g) < bbox_area (gt_bboxes ! g'))"
      by (simp add: passes_def)
    from label_winner [OF g fin best] fin show "labels ! p = gt_labels ! g"
      unfolding Lp by simp
  qed
  from a b show ?thesis by blast
qed

lemma min4_pos: "0 < min4 (l, t, r, bt) \<longleftrightarrow> 0 < l \<and> 0 < t \<and> 0 < r \<and> 0 < bt"
  by (auto simp: min4_def)

text \<open>
  Claim C6.  Center sampling is off and there is one instance, with a non-zero label and a
  box whose area is not \<^verbatim>\<open>INF = 1e8\<close>.  When \<^verbatim>\<open>polar_target_single\<close> returns its 4-tuple,
  a point has the label of the instance if and only if its four distances \<open>l, t, r, bt\<close> to
  the box edges are all positive and their maximum lies in the regression range of the
  point, bounds included; otherwise its label is 0, and in particular a point with a
  distance that is not positive has label 0 whatever its regression range.
\<close>

theorem polar_target_single_one_instance:
  assumes ret: "polar_target_single cfg [b] gt_masks [lab] mask_centers gt_max_centerness
                  points regress_ranges = Inr (Targets4 labels bbox_targets mask_targets centerness_target)"
    and cs: "\<not> center_sample cfg"
    and lab: "lab \<noteq> 0"
    and area: "bbox_area b \<noteq> INF_val"
    and lr: "length regress_ranges = length points"
    and p: "p < length points"
    and ed: "edge_distances (points ! p) b = (l, t, r, bt)"
  shows "(labels ! p = lab \<longleftrightarrow>
            (0 < l \<and> 0 < t \<and> 0 < r \<and> 0 < bt) \<and>
            fst (regress_ranges ! p) \<le> max (max l t) (max r bt) \<and>
            max (max l t) (max r bt) \<le> snd (regress_ranges ! p))
       \<and> (labels ! p \<noteq> lab \<longrightarrow> labels ! p = 0)
       \<and> (\<not> (0 < l \<and> 0 < t \<and> 0 < r \<and> 0 < bt) \<longrightarrow> labels ! p = 0)"
proof -
  have lm: "length mask_centers = length [lab]"
  proof (rule ccontr)
    assume "length mask_centers \<noteq> length [lab]"
    then show False
      using ret by (simp add: polar_target_single_def Let_def expand_rows_def split: sum.splits if_splits)
  qed
  have ins: "inside_gt_bbox_mask cfg [b] mask_centers points
               = Inr (map (\<lambda>pt. map (\<lambda>b. 0 < min4 (edge_distances pt b)) [b]) points)"
    using cs by (simp add: inside_gt_bbox_mask_def)
  from polar_target_single_labels [OF ret lr lm] ins p
  have Lp: "labels ! p =
      (if fst (min_with_index (masked_areas (points ! p) (regress_ranges ! p) [b] [0 < min4 (edge_distances (points ! p) b)])) = INF_val
       then 0
       else [lab] ! snd (min_with_index (masked_areas (points ! p) (regress_ranges ! p) [b] [0 < min4 (edge_distances (points ! p) b)])))"
    by auto
  have m: "masked_areas (points ! p) (regress_ranges ! p) [b] [0 < min4 (edge_distances (points ! p) b)]
             = [if (0 < l \<and> 0 < t \<and> 0 < r \<and> 0 < bt) \<and>
                   fst (regress_ranges ! p) \<le> max (max l t) (max r bt) \<and>
                   max (max l t) (max r bt) \<le> snd (regress_ranges ! p)
                then bbox_area b else INF_val]"
    by (simp add: masked_areas_def Let_def inside_regress_range_def ed min4_pos max4_def)
  show ?thesis
    unfolding Lp m using lab area by auto
qed

lemma signal_diamond:
  "\<exists>nc. get_polar_coordinates 5 5 [(5, 8), (8, 5), (5, 2), (2, 5)] 4 = Inr ([3, 3, 3, 3], nc)"
proof -
  let ?ct = "[(5, 8), (8, 5), (5, 2), (2, 5)] :: (real \<times> real) list"
  have a: "point_angle 5 5 (5, 8) = 0" "point_angle 5 5 (8, 5) = 90"
          "point_angle 5 5 (5, 2) = 180" "point_angle 5 5 (2, 5) = 270"
    by (simp_all add: point_angle_def atan2_def trunc_int_def Let_def)
  have d: "point_dist 5 5 (5, 8) = 3" "point_dist 5 5 (8, 5) = 3"
          "point_dist 5 5 (5, 2) = 3" "point_dist 5 5 (2, 5) = 3"
    by (simp_all add: point_dist_def Let_def)
  have s: "spec_bin_value 5 5 ?ct 0 = 3" "spec_bin_value 5 5 ?ct 90 = 3"
          "spec_bin_value 5 5 ?ct 180 = 3" "spec_bin_value 5 5 ?ct 270 = 3"
    by (simp_all add: spec_bin_value_def priority_offsets_def a d)
  from get_polar_coordinates_result [of 4 5 5 ?ct]
  obtain ds nc where r: "get_polar_coordinates 5 5 ?ct 4 = Inr (ds, nc)"
    and l: "length ds = 4"
    and v: "\<forall>k<4. ds ! k = spec_bin_value 5 5 ?ct (int k * (360 div int 4))"
    by auto
  have "ds ! 0 = 3" "ds ! 1 = 3" "ds ! 2 = 3" "ds ! 3 = 3"
    using v [rule_format, of 0] v [rule_format, of 1] v [rule_format, of 2] v [rule_format, of 3] s
    by simp_all
  with list4 [OF l] have "ds = [3, 3, 3, 3]" by simp
  with r show ?thesis by blast
qed

lemma upt_2: "[0..<2] = [0, 1]"
  by (simp add: upt_rec)

text \<open>
  A run with two nested boxes: the point \<open>(5, 5)\<close> lies in both and takes the label of the
  smaller one, the point \<open>(20, 20)\<close> lies in neither.
\<close>

lemma two_instances_run:
  "polar_target_single cfg4 [(0, 0, 10, 10), (2, 2, 8, 8)]
       [[(0, 0), (10, 0), (10, 10), (0, 10)], [(5, 8), (8, 5), (5, 2), (2, 5)]]
       [3, 5] [(5, 5), (5, 5)] [1, 1] [(5, 5), (20, 20)] [(- 1, 64), (- 1, 64)]
     = Inr (Targets4 [5, 0] [(3, 3, 3, 3), (20, 20, - 10, - 10)] [[3, 3, 3, 3], [0, 0, 0, 0]] [Some 1, Some 0])"
proof -
  obtain nc where g: "get_polar_coordinates 5 5 [(5, 8), (8, 5), (5, 2), (2, 5)] 4 = Inr ([3, 3, 3, 3], nc)"
    using signal_diamond by blast
  have c: "polar_centerness_target [3, 3, 3, 3] None = Inr (Some 1)"
    by (simp add: polar_centerness_target_def truthy_def)
  have r4: "replicate 4 (0::real) = [0, 0, 0, 0]"
    by (simp add: numeral_eq_Suc)
  show ?thesis
    by (simp add: polar_target_single_def cfg4_def Let_def expand_rows_def inside_gt_bbox_mask_def
        masked_areas_def inside_regress_range_def edge_distances_def min4_def max4_def bbox_area_def
        INF_val_def upt_2 g c r4)
qed

theorem polar_target_single_min_area_witness:
  "polar_target_single cfg4 [(0, 0, 10, 10), (2, 2, 8, 8)]
       [[(0, 0), (10, 0), (10, 10), (0, 10)], [(5, 8), (8, 5), (5, 2), (2, 5)]]
       [3, 5] [(5, 5), (5, 5)] [1, 1] [(5, 5), (20, 20)] [(- 1, 64), (- 1, 64)]
     = Inr (Targets4 [5, 0] [(3, 3, 3, 3), (20, 20, - 10, - 10)] [[3, 3, 3, 3], [0, 0, 0, 0]] [Some 1, Some 0])
   \<and> [5, 0 :: int] ! 0 = [3, 5] ! 1 \<and> [5, 0 :: int] ! 1 = 0"
proof -
  let ?bbs = "[(0, 0, 10, 10), (2, 2, 8, 8)] :: bbox list"
  let ?pts = "[(5, 5), (20, 20)] :: (real \<times> real) list"
  let ?rrs = "[(- 1, 64), (- 1, 64)] :: (real \<times> real) list"
  let ?inside = "[[True, True], [False, False]]"
  have ins: "inside_gt_bbox_mask cfg4 ?bbs [(5, 5), (5, 5)] ?pts = Inr ?inside"
    by (simp add: inside_gt_bbox_mask_def cfg4_def edge_distances_def min4_def)
  have pass: "passes ?inside ?pts ?rrs ?bbs 0 g \<longleftrightarrow> g = 0 \<or> g = 1" for g
  proof
    assume "passes ?inside ?pts ?rrs ?bbs 0 g"
    then show "g = 0 \<or> g = 1" by (auto simp: passes_def)
  next
    assume "g = 0 \<or> g = 1"
    then show "passes ?inside ?pts ?rrs ?bbs 0 g"
      by (auto simp: passes_def inside_regress_range_def edge_distances_def max4_def)
  qed
  have nopass: "\<not> passes ?inside ?pts ?rrs ?bbs 1 g" for g
  proof
    assume a: "passes ?inside ?pts ?rrs ?bbs 1 g"
    then have "g = 0 \<or> g = 1" by (auto simp: passes_def)
    with a show False by (auto simp: passes_def)
  qed
  have areas: "bbox_area (?bbs ! 0) = 121" "bbox_area (?bbs ! 1) = 49"
    by (simp_all add: bbox_area_def)
  have best: "passes ?inside ?pts ?rrs ?bbs 0 1
              \<and> bbox_area (?bbs ! 1) < INF_val
              \<and> (\<forall>g'. passes ?inside ?pts ?rrs ?bbs 0 g'
                     \<longrightarrow> bbox_area (?bbs ! 1) \<le> bbox_area (?bbs ! g')
                         \<and> (g' < 1 \<longrightarrow> bbox_area (?bbs ! 1) < bbox_area (?bbs ! g')))"
    unfolding pass by (auto simp: bbox_area_def INF_val_def)
  have "[5, 0 :: int] ! 0 = [3, 5] ! 1"
    using polar_target_single_min_area [OF two_instances_run _ _ ins, of 0] best by simp
  moreover have "[5, 0 :: int] ! 1 = 0"
    using polar_target_single_min_area [OF two_instances_run _ _ ins, of 1] nopass by simp
  ultimately show ?thesis using two_instances_run by simp
qed

text \<open>
  A run with one box: a point inside and in range, a point on the left edge, and a point
  inside whose regression range starts above its largest distance.
\<close>

lemma one_instance_run:
  "polar_target_single cfg4 [(2, 2, 8, 8)] [[(5, 8), (8, 5), (5, 2), (2, 5)]]
       [5] [(5, 5)] [1] [(5, 5), (2, 5), (5, 5)] [(- 1, 64), (- 1, 64), (64, 128)]
     = Inr (Targets4 [5, 0, 0] [(3, 3, 3, 3), (0, 3, 6, 3), (3, 3, 3, 3)]
              [[3, 3, 3, 3], [0, 0, 0, 0], [0, 0, 0, 0]] [Some 1, Some 0, Some 0])"
proof -
  obtain nc where g: "get_polar_coordinates 5 5 [(5, 8), (8, 5), (5, 2), (2, 5)] 4 = Inr ([3, 3, 3, 3], nc)"
    using signal_diamond by blast
  have c: "polar_centerness_target [3, 3, 3, 3] None = Inr (Some 1)"
    by (simp add: polar_centerness_target_def truthy_def)
  have r4: "replicate 4 (0::real) = [0, 0, 0, 0]"
    by (simp add: numeral_eq_Suc)
  have u3: "[0..<3] = [0, 1, 2]" by (simp add: upt_rec)
  show ?thesis
    by (simp add: polar_target_single_def cfg4_def Let_def expand_rows_def inside_gt_bbox_mask_def
        masked_areas_def inside_regress_range_def edge_distances_def min4_def max4_def bbox_area_def
        INF_val_def u3 g c r4)
qed

theorem polar_target_single_one_instance_witness:
  "polar_target_single cfg4 [(2, 2, 8, 8)] [[(5, 8), (8, 5), (5, 2), (2, 5)]]
       [5] [(5, 5)] [1] [(5, 5), (2, 5), (5, 5)] [(- 1, 64), (- 1, 64), (64, 128)]
     = Inr (Targets4 [5, 0, 0] [(3, 3, 3, 3), (0, 3, 6, 3), (3, 3, 3, 3)]
              [[3, 3, 3, 3], [0, 0, 0, 0], [0, 0, 0, 0]] [Some 1, Some 0, Some 0])
   \<and> [5, 0, 0 :: int] ! 0 = 5 \<and> [5, 0, 0 :: int] ! 1 = 0 \<and> [5, 0, 0 :: int] ! 2 = 0"
proof -
  have cs: "\<not> center_sample cfg4" by (simp add: cfg4_def)
  have ar: "bbox_area (2, 2, 8, 8) \<noteq> INF_val" by (simp add: bbox_area_def INF_val_def)
  have "[5, 0, 0 :: int] ! 0 = 5"
    using polar_target_single_one_instance [OF one_instance_run cs _ ar, of 0 3 3 3 3]
    by (simp add: edge_distances_def)
  moreover have "[5, 0, 0 :: int] ! 1 = 0"
    using polar_target_single_one_instance [OF one_instance_run cs _ ar, of 1 0 3 6 3]
    by (simp add: edge_distances_def)
  moreover have "[5, 0, 0 :: int] ! 2 = 0"
    using polar_target_single_one_instance [OF one_instance_run cs _ ar, of 2 3 3 3 3]
    by (simp add: edge_distances_def)
  ultimately show ?thesis using one_instance_run by simp
qed

text \<open>
  The area \<^verbatim>\<open>INF = 1e8\<close> is also the mark of an instance that fails a test.  Two boxes of
  areas \<open>1e8\<close> and \<open>4e8\<close> both pass both tests at the point \<open>(5000, 5000)\<close>, and the
  point gets the label 0, not the label 7 of the smaller box.
\<close>

theorem polar_target_single_two_large_boxes:
  "polar_target_single cfg4 [(0, 0, 9999, 9999), (0, 0, 19999, 19999)] [[], []] [7, 9]
       [(5000, 5000), (10000, 10000)] [1, 1] [(5000, 5000)] [(- 1, 100000000)]
     = Inr (Targets4 [0] [(5000, 5000, 4999, 4999)] [[0, 0, 0, 0]] [Some 0])
   \<and> inside_gt_bbox_mask cfg4 [(0, 0, 9999, 9999), (0, 0, 19999, 19999)]
         [(5000, 5000), (10000, 10000)] [(5000, 5000)] = Inr [[True, True]]
   \<and> passes [[True, True]] [(5000, 5000)] [(- 1, 100000000)]
         [(0, 0, 9999, 9999), (0, 0, 19999, 19999)] 0 0
   \<and> passes [[True, True]] [(5000, 5000)] [(- 1, 100000000)]
         [(0, 0, 9999, 9999), (0, 0, 19999, 19999)] 0 1
   \<and> bbox_area (0, 0, 9999, 9999) < bbox_area (0, 0, 19999, 19999)"
proof -
  have r4: "replicate 4 (0::real) = [0, 0, 0, 0]"
    by (simp add: numeral_eq_Suc)
  have "polar_target_single cfg4 [(0, 0, 9999, 9999), (0, 0, 19999, 19999)] [[], []] [7, 9]
       [(5000, 5000), (10000, 10000)] [1, 1] [(5000, 5000)] [(- 1, 100000000)]
     = Inr (Targets4 [0] [(5000, 5000, 4999, 4999)] [[0, 0, 0, 0]] [Some 0])"
    by (simp add: polar_target_single_def cfg4_def Let_def expand_rows_def inside_gt_bbox_mask_def
        masked_areas_def inside_regress_range_def edge_distances_def min4_def max4_def bbox_area_def
        INF_val_def upt_2 r4)
  moreover have "inside_gt_bbox_mask cfg4 [(0, 0, 9999, 9999), (0, 0, 19999, 19999)]
         [(5000, 5000), (10000, 10000)] [(5000, 5000)] = Inr [[True, True]]"
    by (simp add: inside_gt_bbox_mask_def cfg4_def edge_distances_def min4_def)
  moreover have "passes [[True, True]] [(5000, 5000)] [(- 1, 100000000)]
         [(0, 0, 9999, 9999), (0, 0, 19999, 19999)] 0 0"
    by (simp add: passes_def inside_regress_range_def edge_distances_def max4_def Let_def)
  moreover have "passes [[True, True]] [(5000, 5000)] [(- 1, 100000000)]
         [(0, 0, 9999, 9999), (0, 0, 19999, 19999)] 0 1"
    by (simp add: passes_def inside_regress_range_def edge_distances_def max4_def Let_def)
  moreover have "bbox_area (0, 0, 9999, 9999) < bbox_area (0, 0, 19999, 19999)"
    by (simp add: bbox_area_def)
  ultimately show ?thesis by blast
qed

text \<open>
  With one box of area exactly \<open>1e8\<close>, the point \<open>(5000, 5000)\<close> has four positive
  distances whose maximum lies in its regression range, and gets the label 0, not the
  label 7 of the instance.
\<close>

theorem polar_target_single_sentinel_area:
  "polar_target_single cfg4 [(0, 0, 9999, 9999)] [[]] [7] [(5000, 5000)] [1]
       [(5000, 5000)] [(- 1, 100000000)]
     = Inr (Targets4 [0] [(5000, 5000, 4999, 4999)] [[0, 0, 0, 0]] [Some 0])
   \<and> edge_distances (5000, 5000) (0, 0, 9999, 9999) = (5000, 5000, 4999, 4999)
   \<and> inside_regress_range (5000, 5000) (- 1, 100000000) (0, 0, 9999, 9999)
   \<and> \<not> center_sample cfg4"
proof -
  have r4: "replicate 4 (0::real) = [0, 0, 0, 0]"
    by (simp add: numeral_eq_Suc)
  have "polar_target_single cfg4 [(0, 0, 9999, 9999)] [[]] [7] [(5000, 5000)] [1]
       [(5000, 5000)] [(- 1, 100000000)]
     = Inr (Targets4 [0] [(5000, 5000, 4999, 4999)] [[0, 0, 0, 0]] [Some 0])"
    by (simp add: polar_target_single_def cfg4_def Let_def expand_rows_def inside_gt_bbox_mask_def
        masked_areas_def inside_regress_range_def edge_distances_def min4_def max4_def bbox_area_def
        INF_val_def r4)
  moreover have "edge_distances (5000, 5000) (0, 0, 9999, 9999) = (5000, 5000, 4999, 4999)"
    by (simp add: edge_distances_def)
  moreover have "inside_regress_range (5000, 5000) (- 1, 100000000) (0, 0, 9999, 9999)"
    by (simp add: inside_regress_range_def edge_distances_def max4_def Let_def)
  moreover have "\<not> center_sample cfg4" by (simp add: cfg4_def)
  ultimately show ?thesis by blast
qed

section \<open>Properties of the Fourier codec\<close>

text \<open>The sum of the powers of a root of unity other than 1 vanishes.\<close>

lemma unit_root_sum:
  fixes d :: int and N :: nat
  assumes "d \<noteq> 0" and "\<bar>d\<bar> < int N"
  shows "(\<Sum>k<N. cis (2 * pi * real k * real_of_int d / real N)) = 0"
proof -
  have N0: "0 < N" using assms by linarith
  let ?w = "cis (2 * pi * real_of_int d / real N)"
  have pw: "\<And>k. cis (2 * pi * real k * real_of_int d / real N) = ?w ^ k"
    by (simp add: DeMoivre algebra_simps)
  have w1: "?w \<noteq> 1"
  proof
    assume "?w = 1"
    then have "Re ?w = 1" by simp
    then have "cos (2 * pi * real_of_int d / real N) = 1" by simp
    then obtain j :: int where j: "2 * pi * real_of_int d / real N = real_of_int j * 2 * pi"
      using cos_one_2pi_int by blast
    then have "(2 * pi) * (real_of_int d / real N) = (2 * pi) * real_of_int j"
      by (simp add: mult.commute mult.left_commute)
    then have "real_of_int d / real N = real_of_int j"
      using pi_gt_zero by (simp only: mult_cancel_left) simp
    then have "real_of_int d = real_of_int j * real N"
      using N0 by (simp add: field_simps)
    then have "real_of_int d = real_of_int (j * int N)" by simp
    then have dj: "d = j * int N" by (simp only: of_int_eq_iff)
    have "j \<noteq> 0" using dj assms(1) by auto
    then have "1 \<le> \<bar>j\<bar>" by simp
    then have "int N \<le> \<bar>j\<bar> * int N" by (simp add: mult_le_cancel_right1)
    also have "\<dots> = \<bar>d\<bar>" unfolding dj by (simp add: abs_mult)
    finally show False using assms(2) by simp
  qed
  have wN: "?w ^ N = 1"
  proof -
    have "?w ^ N = cis (real N * (2 * pi * real_of_int d / real N))" by (rule DeMoivre)
    also have "real N * (2 * pi * real_of_int d / real N) = 2 * pi * real_of_int d"
      using N0 by simp
    also have "cis (2 * pi * real_of_int d) = 1"
      by (rule cis_multiple_2pi) simp
    finally show ?thesis .
  qed
  have "(\<Sum>k<N. ?w ^ k) = (?w ^ N - 1) / (?w - 1)"
    using w1 by (rule geometric_sum)
  then show ?thesis by (simp add: pw wN)
qed

lemma unit_root_sum_delta:
  fixes n m N :: nat
  assumes "n < N" and "m < N"
  shows "(\<Sum>k<N. cis (2 * pi * real k * (real n - real m) / real N)) = (if n = m then of_nat N else 0)"
proof (cases "n = m")
  case True
  then show ?thesis by simp
next
  case False
  let ?d = "int n - int m"
  have "?d \<noteq> 0" using False by simp
  moreover have "\<bar>?d\<bar> < int N" using assms by linarith
  ultimately have "(\<Sum>k<N. cis (2 * pi * real k * real_of_int ?d / real N)) = 0"
    by (rule unit_root_sum)
  moreover have "real_of_int ?d = real n - real m" by simp
  ultimately show ?thesis using False by simp
qed

text \<open>The bin \<open>k\<close> of the normalized transform of \<open>x\<close>.\<close>

lemma rfft_nth:
  assumes "x \<noteq> []" and "k < length x"
  shows "\<exists>X. rfft x = Inr X \<and> length X = length x \<and>
           X ! k = (\<Sum>n<length x. of_real (x ! n) * cis (- (2 * pi * real k * real n / real (length x))))
                     / of_real (sqrt (real (length x)))"
  using assms by (simp add: rfft_def Let_def)

text \<open>The transform of a real signal is conjugate-symmetric.\<close>

lemma dft_conjugate_symmetry:
  fixes N :: nat
  assumes "0 < k" and "k < N"
  shows "cnj ((\<Sum>n<N. of_real (x n) * cis (- (2 * pi * real (N - k) * real n / real N))) / of_real s)
           = (\<Sum>n<N. of_real (x n) * cis (- (2 * pi * real k * real n / real N))) / of_real s"
proof -
  have "\<And>n. cis (2 * pi * real (N - k) * real n / real N) = cis (- (2 * pi * real k * real n / real N))"
  proof -
    fix n :: nat
    have "2 * pi * real (N - k) * real n / real N = 2 * pi * real n + - (2 * pi * real k * real n / real N)"
      using assms by (simp add: of_nat_diff field_simps)
    then have "cis (2 * pi * real (N - k) * real n / real N)
                 = cis (2 * pi * real n) * cis (- (2 * pi * real k * real n / real N))"
      by (simp only: cis_mult)
    also have "cis (2 * pi * real n) = 1" by (rule cis_multiple_2pi) simp
    finally show "cis (2 * pi * real (N - k) * real n / real N) = cis (- (2 * pi * real k * real n / real N))"
      by simp
  qed
  then show ?thesis
    by (simp add: cis_cnj)
qed

lemma dft_inversion:
  fixes N :: nat
  assumes "n < N"
  shows "(\<Sum>k<N. ((\<Sum>m<N. of_real (x m) * cis (- (2 * pi * real k * real m / real N))) / of_real (sqrt (real N)))
                    * cis (2 * pi * real k * real n / real N)) / of_real (sqrt (real N))
           = (of_real (x n) :: complex)"
proof -
  have N0: "0 < N" using assms by simp
  define s :: complex where "s = of_real (sqrt (real N))"
  define A :: "nat \<Rightarrow> complex" where
    "A k = (\<Sum>m<N. of_real (x m) * cis (- (2 * pi * real k * real m / real N)))" for k
  define B :: "nat \<Rightarrow> complex" where
    "B k = (\<Sum>m<N. of_real (x m) * cis (2 * pi * real k * (real n - real m) / real N))" for k
  define c :: "nat \<Rightarrow> complex" where "c k = cis (2 * pi * real k * real n / real N)" for k
  have sq: "s * s = of_nat N"
    unfolding s_def by (metis of_real_mult of_real_of_nat_eq real_sqrt_mult_self abs_of_nat)
  have s0: "s \<noteq> 0" using sq N0 by auto
  have h: "\<And>k m. of_real (x m) * cis (- (2 * pi * real k * real m / real N)) * cis (2 * pi * real k * real n / real N)
                 = (of_real (x m) * cis (2 * pi * real k * (real n - real m) / real N) :: complex)"
    by (simp add: mult.assoc cis_mult algebra_simps diff_divide_distrib)
  have AB: "\<And>k. A k * c k = B k"
    unfolding A_def B_def c_def by (simp only: sum_distrib_right h)
  have "(\<Sum>k<N. (A k / s) * c k) / s = (\<Sum>k<N. B k / s) / s"
    by (simp add: AB [symmetric])
  also have "\<dots> = (\<Sum>k<N. B k) / (s * s)"
    by (simp add: sum_divide_distrib)
  also have "(\<Sum>k<N. B k) = (\<Sum>m<N. of_real (x m) * (\<Sum>k<N. cis (2 * pi * real k * (real n - real m) / real N)))"
    unfolding B_def by (subst sum.swap) (simp add: sum_distrib_left)
  also have "\<dots> = (\<Sum>m<N. of_real (x m) * (if n = m then of_nat N else 0))"
    by (rule sum.cong) (simp_all add: unit_root_sum_delta [OF assms])
  also have "\<dots> = (\<Sum>m<N. if n = m then of_real (x m) * of_nat N else 0)"
    by (rule sum.cong) simp_all
  also have "\<dots> = of_real (x n) * of_nat N"
    using assms by (simp add: sum.delta')
  finally have "(\<Sum>k<N. (A k / s) * c k) / s = of_real (x n)"
    using N0 by (simp add: sq)
  then show ?thesis
    unfolding A_def c_def s_def .
qed

text \<open>
  Claim C2.  For a signal \<open>x\<close> of length \<open>N > 0\<close>, the forward transform keeping
  \<open>K = N div 2 + 1\<close> coefficients followed by the inverse transform, which pads the
  coefficients with \<open>N - K\<close> zeros, gives back \<open>x\<close>.  The arithmetic is exact here, so the
  reconstruction is exact; rounding is not modelled.
\<close>

theorem fourier_round_trip:
  assumes "x \<noteq> []"
  shows "\<exists>coe. fourier_forward (length x div 2 + 1) x = Inr coe \<and> length coe = length x div 2 + 1 \<and>
           fourier_inverse (length x) (length x div 2 + 1) coe = Inr x"
proof -
  let ?N = "length x"
  let ?K = "?N div 2 + 1"
  let ?s = "of_real (sqrt (real ?N)) :: complex"
  let ?bin = "\<lambda>k. (\<Sum>n<?N. of_real (x ! n) * cis (- (2 * pi * real k * real n / real ?N))) / ?s"
  let ?X = "map ?bin [0..<?N]"
  let ?coe = "take ?K ?X"
  let ?Y = "?coe @ replicate (?N - ?K) 0"
  have N0: "0 < ?N" using assms by simp
  have KN: "?K \<le> ?N" using N0 by linarith
  have r: "rfft x = Inr ?X" using N0 by (simp add: rfft_def Let_def)
  have f: "fourier_forward ?K x = Inr ?coe" by (simp add: fourier_forward_def r)
  have lc: "length ?coe = ?K" using KN by simp
  have lY: "length ?Y = ?N" using KN by simp
  have low: "?Y ! k = ?bin k" if "k \<le> ?N div 2" for k
  proof -
    have "k < ?K" "k < ?N" using that KN by linarith+
    then show ?thesis by (simp add: nth_append)
  qed
  have herm: "hermitian_bin ?Y k = ?bin k" if k: "k < ?N" for k
  proof (cases "k \<le> ?N div 2")
    case True
    then show ?thesis unfolding hermitian_bin_def lY using low by simp
  next
    case False
    then have k0: "0 < k" and m: "?N - k \<le> ?N div 2" using k by linarith+
    have "hermitian_bin ?Y k = cnj (?Y ! (?N - k))"
      unfolding hermitian_bin_def lY using False by simp
    also have "\<dots> = cnj (?bin (?N - k))" using low [OF m] by simp
    also have "\<dots> = ?bin k" by (rule dft_conjugate_symmetry [OF k0 k])
    finally show ?thesis .
  qed
  have inv: "irfft ?Y = Inr (map (\<lambda>n. Re ((\<Sum>k<?N. hermitian_bin ?Y k * cis (2 * pi * real k * real n / real ?N)) / ?s)) [0..<?N])"
    using N0 unfolding irfft_def Let_def lY by simp
  have "map (\<lambda>n. Re ((\<Sum>k<?N. hermitian_bin ?Y k * cis (2 * pi * real k * real n / real ?N)) / ?s)) [0..<?N]
          = map (\<lambda>n. x ! n) [0..<?N]"
  proof (rule map_cong [OF refl])
    fix n assume "n \<in> set [0..<?N]"
    then have n: "n < ?N" by simp
    have "(\<Sum>k<?N. hermitian_bin ?Y k * cis (2 * pi * real k * real n / real ?N))
            = (\<Sum>k<?N. ?bin k * cis (2 * pi * real k * real n / real ?N))"
      by (rule sum.cong [OF refl]) (simp only: lessThan_iff herm)
    then have "(\<Sum>k<?N. hermitian_bin ?Y k * cis (2 * pi * real k * real n / real ?N)) / ?s = of_real (x ! n)"
      using dft_inversion [OF n, of "\<lambda>m. x ! m"] by simp
    then show "Re ((\<Sum>k<?N. hermitian_bin ?Y k * cis (2 * pi * real k * real n / real ?N)) / ?s) = x ! n"
      by simp
  qed
  also have "\<dots> = x" by (rule map_nth)
  finally have "irfft ?Y = Inr x" using inv by simp
  then have "fourier_inverse ?N ?K ?coe = Inr x"
    using KN by (simp add: fourier_inverse_def)
  with f lc show ?thesis by blast
qed

theorem fourier_round_trip_witness:
  "\<exists>coe. fourier_forward 2 [3, 1, 2] = Inr coe \<and> length coe = 2 \<and> fourier_inverse 3 2 coe = Inr [3, 1, 2]"
proof -
  have ne: "[3, 1, 2 :: real] \<noteq> []" by simp
  have l: "length [3, 1, 2 :: real] = 3" and k: "(3::nat) div 2 + 1 = 2" by simp_all
  from fourier_round_trip [OF ne] show ?thesis unfolding l k .
qed

end
